theory Spec2Isabelle
  imports Complex_Main "HOL-Library.Word" "HOL-Library.AList" "HOL-Library.Multiset"
begin

unbundle bit_operations_syntax

section \<open>Data model (src/game/types.ts)\<close>

text \<open>
  Numbers. A TypeScript \<open>number\<close> is a double. Inside the engine, grid coordinates,
  grid sizes, ticks and growth amounts are modelled as \<open>int\<close>, the speed, the
  accumulator, the multipliers and the PRNG draws as exact rationals (\<open>rat\<close>); the
  PRNG state is a \<open>32 word\<close>. So the engine is described on integer-valued grids and
  with exact instead of rounded fractions.

  The config a caller passes in is modelled as JavaScript holds it: a number is
  finite, infinite or \<open>NaN\<close> (\<open>jsnum\<close>), and a key of the object may hold a number
  or \<open>undefined\<close> (\<open>jsval\<close>).
\<close>

datatype jsnum = Fin rat | PosInf | NegInf | NaN

datatype jsval = Undefined | Number jsnum

text \<open>\<open>ToNumber\<close>, as \<open>Math.max\<close>, \<open>Math.min\<close> and \<open><\<close> apply it to their operands.\<close>

fun toNumber :: "jsval \<Rightarrow> jsnum" where
  "toNumber Undefined = NaN"
| "toNumber (Number n) = n"

text \<open>The comparison \<open>a <= b\<close> of two numbers; it is false when either is \<open>NaN\<close>.\<close>

fun num_le :: "jsnum \<Rightarrow> jsnum \<Rightarrow> bool" where
  "num_le NaN b = False"
| "num_le a NaN = False"
| "num_le NegInf b = True"
| "num_le a PosInf = True"
| "num_le (Fin a) (Fin b) = (a \<le> b)"
| "num_le PosInf b = False"
| "num_le a NegInf = False"

text \<open>\<open>Math.max\<close> and \<open>Math.min\<close> of two numbers: \<open>NaN\<close> when either is \<open>NaN\<close>.\<close>

definition mathMax :: "jsnum \<Rightarrow> jsnum \<Rightarrow> jsnum" where
  "mathMax a b = (if a = NaN \<or> b = NaN then NaN else if num_le a b then b else a)"

definition mathMin :: "jsnum \<Rightarrow> jsnum \<Rightarrow> jsnum" where
  "mathMin a b = (if a = NaN \<or> b = NaN then NaN else if num_le a b then a else b)"

text \<open>
  \<open>v >>> 0\<close> (\<open>ToUint32\<close>): \<open>undefined\<close>, \<open>NaN\<close> and the infinities give 0; a
  finite number is cut towards zero and reduced modulo \<open>2^32\<close>.
\<close>

fun toUint32 :: "jsval \<Rightarrow> 32 word" where
  "toUint32 (Number (Fin q)) = word_of_int (if 0 \<le> q then \<lfloor>q\<rfloor> else \<lceil>q\<rceil>)"
| "toUint32 v = 0"

text \<open>An integer as a JavaScript value.\<close>

definition intNum :: "int \<Rightarrow> jsval" where
  "intNum k = Number (Fin (of_int k))"

text \<open>The integer that a value is, if it is one.\<close>

fun intOf :: "jsval \<Rightarrow> int option" where
  "intOf (Number (Fin q)) = (if of_int \<lfloor>q\<rfloor> = q then Some \<lfloor>q\<rfloor> else None)"
| "intOf v = None"

datatype Direction = Up | Down | Left | Right

record Vec2 =
  vx :: int
  vy :: int

datatype Controller = Player | Ai

datatype EffectType = SpeedBoost

record SnakeEffect =
  eff_type :: EffectType
  multiplier :: rat
  expiresAtTick :: int

record Snake =
  snake_id :: string
  segments :: "Vec2 list"
  direction :: Direction
  alive :: bool
  pendingTurn :: "Direction option"
  speed :: rat
  accumulator :: rat
  controller :: Controller
  pendingGrowth :: int
  effects :: "SnakeEffect list"
  safeUntilTick :: int

datatype FoodKind = Standard | Speed | Bulk

record FoodEffectTemplate =
  tpl_type :: EffectType
  tpl_multiplier :: rat
  duration :: int

record Food =
  food_id :: string
  position :: Vec2
  kind :: FoodKind
  growth :: int
  effect :: "FoodEffectTemplate option"

text \<open>
  A \<open>GameConfig\<close> object as \<open>clampConfig\<close> receives and returns it. The interface
  declares every field a \<open>number\<close>; the object spread can also put \<open>undefined\<close>
  there.
\<close>

record RawConfig =
  raw_cols :: jsval
  raw_rows :: jsval
  raw_tickRate :: jsval
  raw_seed :: jsval
  raw_aiCount :: jsval

text \<open>
  \<open>Partial<GameConfig>\<close>: a key is absent (\<open>None\<close>) or present, and a present key holds
  a number or \<open>undefined\<close>.
\<close>

record PartialConfig =
  p_cols :: "jsval option"
  p_rows :: "jsval option"
  p_tickRate :: "jsval option"
  p_seed :: "jsval option"
  p_aiCount :: "jsval option"

text \<open>
  The \<open>GameConfig\<close> inside a state of this model. The grid size is an integer, as the
  coordinates are; \<open>tickRate\<close>, \<open>seed\<close> and \<open>aiCount\<close> are kept as JavaScript holds
  them.
\<close>

record GameConfig =
  cols :: int
  rows :: int
  tickRate :: jsval
  seed :: jsval
  aiCount :: jsval

datatype Status = Running | Gameover

record RespawnTicket =
  snakeId :: string
  ticket_controller :: Controller
  ticksRemaining :: int

text \<open>
  The engine never reads or writes the \<open>stats\<close> field that types.ts declares for
  \<open>GameState\<close>; it is left out.
\<close>

record GameState =
  tick :: int
  config :: GameConfig
  snakes :: "Snake list"
  foods :: "Food list"
  rngState :: int
  status :: Status
  respawnQueue :: "RespawnTicket list"

text \<open>An \<open>InputCommand\<close>; its \<open>type\<close> is always \<open>'turn'\<close>.\<close>

record InputCommand =
  cmd_snakeId :: string
  cmd_direction :: Direction

section \<open>Deterministic PRNG (src/game/prng.ts)\<close>

text \<open>
  \<open>createRng\<close> closes over one mutable \<open>state\<close>, here a \<open>32 word\<close> passed along
  explicitly. \<open>seed >>> 0\<close> is \<open>toUint32\<close>. \<open>Math.imul\<close>, \<open>^\<close>, \<open>|\<close>
  and \<open>>>>\<close> act on the low 32 bits, and the sum inside \<open>t ^= t + ...\<close> is cut to
  32 bits by the exclusive or, so every step is word arithmetic.
\<close>

definition createRng :: "jsval \<Rightarrow> 32 word" where
  "createRng sd = toUint32 sd"

definition rng_next :: "32 word \<Rightarrow> rat \<times> 32 word" where
  "rng_next st =
     (let st' = st + 0x6d2b79f5;
          t = st';
          t = (t XOR drop_bit 15 t) * (t OR 1);
          t = t XOR (t + (t XOR drop_bit 7 t) * (t OR 61))
      in (of_int (uint (t XOR drop_bit 14 t)) / 4294967296, st'))"

definition rng_state :: "32 word \<Rightarrow> int" where
  "rng_state st = uint st"

section \<open>Engine (src/game/engine.ts)\<close>

subsection \<open>Directions and positions\<close>

fun directionVectors :: "Direction \<Rightarrow> Vec2" where
  "directionVectors Up = \<lparr>vx = 0, vy = -1\<rparr>"
| "directionVectors Down = \<lparr>vx = 0, vy = 1\<rparr>"
| "directionVectors Left = \<lparr>vx = -1, vy = 0\<rparr>"
| "directionVectors Right = \<lparr>vx = 1, vy = 0\<rparr>"

definition allDirections :: "Direction list" where
  "allDirections = [Up, Down, Left, Right]"

fun opposite :: "Direction \<Rightarrow> Direction" where
  "opposite Up = Down"
| "opposite Down = Up"
| "opposite Left = Right"
| "opposite Right = Left"

text \<open>
  \<open>cellKey\<close> renders a position as the string \<open>"x,y"\<close>, which is injective on integer
  coordinates; the maps and sets keyed by it are keyed by the position itself here.
\<close>

definition nextPosition :: "Vec2 \<Rightarrow> Direction \<Rightarrow> Vec2" where
  "nextPosition from d =
     (let delta = directionVectors d
      in \<lparr>vx = vx from + vx delta, vy = vy from + vy delta\<rparr>)"

subsection \<open>Configuration\<close>

definition defaultConfig :: RawConfig where
  "defaultConfig =
     \<lparr>raw_cols = Number (Fin 32), raw_rows = Number (Fin 24), raw_tickRate = Number (Fin 10),
      raw_seed = Number (Fin 1), raw_aiCount = Number (Fin 2)\<rparr>"

text \<open>
  \<open>clampConfig\<close> spreads the config and replaces four fields by the result of
  \<open>Math.max\<close> or \<open>Math.min\<close>, which is a number, \<open>NaN\<close> included. The seed is
  spread through as it is.
\<close>

definition clampConfig :: "RawConfig \<Rightarrow> RawConfig" where
  "clampConfig c =
     c\<lparr>raw_cols := Number (mathMax (Fin 8) (toNumber (raw_cols c))),
       raw_rows := Number (mathMax (Fin 8) (toNumber (raw_rows c))),
       raw_tickRate := Number (mathMax (Fin 1) (toNumber (raw_tickRate c))),
       raw_aiCount := Number (mathMax (Fin 0) (mathMin (Fin 4) (toNumber (raw_aiCount c))))\<rparr>"

text \<open>
  The object spread \<open>{ ...defaultConfig, ...partialConfig }\<close>: a key present in
  \<open>partialConfig\<close> replaces the default, also when it holds \<open>undefined\<close>.
\<close>

definition mergeConfig :: "RawConfig \<Rightarrow> PartialConfig \<Rightarrow> RawConfig" where
  "mergeConfig d p =
     \<lparr>raw_cols = (case p_cols p of None \<Rightarrow> raw_cols d | Some v \<Rightarrow> v),
      raw_rows = (case p_rows p of None \<Rightarrow> raw_rows d | Some v \<Rightarrow> v),
      raw_tickRate = (case p_tickRate p of None \<Rightarrow> raw_tickRate d | Some v \<Rightarrow> v),
      raw_seed = (case p_seed p of None \<Rightarrow> raw_seed d | Some v \<Rightarrow> v),
      raw_aiCount = (case p_aiCount p of None \<Rightarrow> raw_aiCount d | Some v \<Rightarrow> v)\<rparr>"

text \<open>
  The config as a state of this model holds it: defined when \<open>cols\<close> and \<open>rows\<close>
  are integers.
\<close>

definition gridConfig :: "RawConfig \<Rightarrow> GameConfig option" where
  "gridConfig c =
     (case intOf (raw_cols c) of
        None \<Rightarrow> None
      | Some w \<Rightarrow>
          (case intOf (raw_rows c) of
             None \<Rightarrow> None
           | Some h \<Rightarrow>
               Some \<lparr>cols = w, rows = h, tickRate = raw_tickRate c, seed = raw_seed c,
                     aiCount = raw_aiCount c\<rparr>))"

subsection \<open>Snakes\<close>

definition buildSnake ::
  "string \<Rightarrow> Vec2 \<Rightarrow> Direction \<Rightarrow> Controller \<Rightarrow> int \<Rightarrow> Snake" where
  "buildSnake i head d c safeUntil =
     (let vector = directionVectors d;
          body = [head] @ map (\<lambda>k. \<lparr>vx = vx head - vx vector * k, vy = vy head - vy vector * k\<rparr>) [1, 2]
      in \<lparr>snake_id = i, segments = body, direction = d, alive = True, pendingTurn = None,
          speed = 1, accumulator = 0, controller = c, pendingGrowth = 0, effects = [],
          safeUntilTick = safeUntil\<rparr>)"

definition applyInput :: "Snake \<Rightarrow> Direction \<Rightarrow> Snake" where
  "applyInput snake d =
     (if d = opposite (direction snake) then snake else snake\<lparr>pendingTurn := Some d\<rparr>)"

text \<open>\<open>maybeTurn\<close> returns the pair \<open>(direction, pendingTurn)\<close>.\<close>

definition maybeTurn :: "Snake \<Rightarrow> Direction \<times> Direction option" where
  "maybeTurn snake =
     (case pendingTurn snake of
        Some t \<Rightarrow> if t \<noteq> opposite (direction snake) then (t, None)
                  else (direction snake, pendingTurn snake)
      | None \<Rightarrow> (direction snake, pendingTurn snake))"

record SpawnLayout =
  sp_head :: Vec2
  sp_direction :: Direction

text \<open>
  \<open>Math.floor(n * 0.1)\<close> is \<open>n div 10\<close> on integers (both round towards minus
  infinity).
\<close>

definition createSpawnPoints :: "GameConfig \<Rightarrow> SpawnLayout list" where
  "createSpawnPoints c =
     (let margin = max 3 (min (cols c) (rows c) div 10);
          rightX = max margin (cols c - margin - 1);
          leftX = min (cols c - margin - 1) margin;
          topY = min (rows c - margin - 1) margin;
          bottomY = max margin (rows c - margin - 1);
          centerX = cols c div 2
      in [\<lparr>sp_head = \<lparr>vx = leftX, vy = topY\<rparr>, sp_direction = Right\<rparr>,
          \<lparr>sp_head = \<lparr>vx = rightX, vy = topY\<rparr>, sp_direction = Left\<rparr>,
          \<lparr>sp_head = \<lparr>vx = rightX, vy = bottomY\<rparr>, sp_direction = Left\<rparr>,
          \<lparr>sp_head = \<lparr>vx = leftX, vy = bottomY\<rparr>, sp_direction = Right\<rparr>,
          \<lparr>sp_head = \<lparr>vx = centerX, vy = topY\<rparr>, sp_direction = Down\<rparr>,
          \<lparr>sp_head = \<lparr>vx = centerX, vy = bottomY\<rparr>, sp_direction = Up\<rparr>])"

subsection \<open>Food\<close>

record FoodDefinition =
  def_kind :: FoodKind
  weight :: rat
  def_growth :: int
  def_effect :: "FoodEffectTemplate option"

definition foodDefinitions :: "FoodDefinition list" where
  "foodDefinitions =
     [\<lparr>def_kind = Standard, weight = 6 / 10, def_growth = 1, def_effect = None\<rparr>,
      \<lparr>def_kind = Bulk, weight = 2 / 10, def_growth = 3, def_effect = None\<rparr>,
      \<lparr>def_kind = Speed, weight = 2 / 10, def_growth = 1,
       def_effect = Some \<lparr>tpl_type = SpeedBoost, tpl_multiplier = 16 / 10, duration = 18\<rparr>\<rparr>]"

definition totalFoodWeight :: rat where
  "totalFoodWeight = fold (\<lambda>d acc. acc + weight d) foodDefinitions 0"

text \<open>The \<open>for ... of\<close> loop of \<open>pickFoodDefinition\<close>, with its fall-through result.\<close>

fun pickFrom :: "rat \<Rightarrow> FoodDefinition list \<Rightarrow> FoodDefinition" where
  "pickFrom v [] = last foodDefinitions"
| "pickFrom v (d # ds) = (let v' = v - weight d in if v' \<le> 0 then d else pickFrom v' ds)"

definition pickFoodDefinition :: "32 word \<Rightarrow> FoodDefinition \<times> 32 word" where
  "pickFoodDefinition rng =
     (let (r, rng') = rng_next rng
      in (pickFrom (r * totalFoodWeight) foodDefinitions, rng'))"

definition MAX_FOOD :: nat where
  "MAX_FOOD = 5"

definition RESPAWN_DELAY_TICKS :: int where
  "RESPAWN_DELAY_TICKS = 24"

definition SAFE_RESPAWN_TICKS :: int where
  "SAFE_RESPAWN_TICKS = 12"

text \<open>Decimal rendering of numbers inside template strings.\<close>

definition digit_char :: "nat \<Rightarrow> char" where
  "digit_char n = ''0123456789'' ! n"

function string_of_nat :: "nat \<Rightarrow> string" where
  "string_of_nat n =
     (if n < 10 then [digit_char n] else string_of_nat (n div 10) @ [digit_char (n mod 10)])"
  by pat_completeness auto
termination
  by (relation "measure (\<lambda>n. n)") auto

definition string_of_int :: "int \<Rightarrow> string" where
  "string_of_int i = (if i < 0 then ''-'' @ string_of_nat (nat (- i)) else string_of_nat (nat i))"

fun kind_name :: "FoodKind \<Rightarrow> string" where
  "kind_name Standard = ''standard''"
| "kind_name Speed = ''speed''"
| "kind_name Bulk = ''bulk''"

text \<open>
  The inner \<open>for\<close> loop of \<open>replenishFood\<close>: at most \<open>attempts\<close> samples of a cell; the
  first free one receives a food. The result is the new food, if any, and the
  generator after the draws. \<open>n\<close> counts the attempts left, \<open>idx\<close> is
  \<open>foods.length\<close>.
\<close>

fun placeFood ::
  "nat \<Rightarrow> GameState \<Rightarrow> Vec2 set \<Rightarrow> nat \<Rightarrow> 32 word \<Rightarrow> Food option \<times> 32 word" where
  "placeFood 0 state occupied idx rng = (None, rng)"
| "placeFood (Suc n) state occupied idx rng =
     (let (r1, rng1) = rng_next rng;
          px = \<lfloor>r1 * of_int (cols (config state))\<rfloor>;
          (r2, rng2) = rng_next rng1;
          py = \<lfloor>r2 * of_int (rows (config state))\<rfloor>;
          key = \<lparr>vx = px, vy = py\<rparr>
      in if key \<in> occupied then placeFood n state occupied idx rng2
         else (let (definition, rng3) = pickFoodDefinition rng2
               in (Some \<lparr>food_id = ''food-'' @ string_of_int (tick state) @ ''-''
                                   @ string_of_nat idx @ ''-'' @ kind_name (def_kind definition),
                          position = \<lparr>vx = px, vy = py\<rparr>,
                          kind = def_kind definition,
                          growth = def_growth definition,
                          effect = def_effect definition\<rparr>, rng3)))"

text \<open>The \<open>while (foods.length < MAX_FOOD)\<close> loop, left when no food could be placed.\<close>

function fillFoods ::
  "GameState \<Rightarrow> Vec2 set \<Rightarrow> Food list \<Rightarrow> 32 word \<Rightarrow> Food list \<times> 32 word" where
  "fillFoods state occupied fs rng =
     (if length fs < MAX_FOOD then
        (case placeFood (nat (cols (config state) * rows (config state))) state occupied
                (length fs) rng of
           (None, rng') \<Rightarrow> (fs, rng')
         | (Some f, rng') \<Rightarrow> fillFoods state (insert (position f) occupied) (fs @ [f]) rng')
      else (fs, rng))"
  by pat_completeness auto
termination
  by (relation "measure (\<lambda>(state, occupied, fs, rng). MAX_FOOD - length fs)") auto

definition occupiedCells :: "Snake list \<Rightarrow> Food list \<Rightarrow> Vec2 set" where
  "occupiedCells sns fs = (\<Union>s \<in> set sns. set (segments s)) \<union> position ` set fs"

definition replenishFood :: "GameState \<Rightarrow> 32 word \<Rightarrow> GameState" where
  "replenishFood state rng =
     (if length (foods state) \<ge> MAX_FOOD then state
      else (let occupied = occupiedCells (snakes state) (foods state);
                (fs, rng') = fillFoods state occupied (foods state) rng
            in state\<lparr>foods := fs, rngState := rng_state rng'\<rparr>))"

subsection \<open>Initial state\<close>

text \<open>
  The loop over \<open>i < aiCount\<close>; \<open>spawnPoints\<close> has six entries, so for
  \<open>i + 1 \<ge> 6\<close> the \<open>??\<close> fallback wraps around.
\<close>

definition initialAi :: "SpawnLayout list \<Rightarrow> nat \<Rightarrow> Snake" where
  "initialAi spawnPoints i =
     (let layout = (if i + 1 < length spawnPoints then spawnPoints ! (i + 1)
                    else spawnPoints ! ((i + 1) mod length spawnPoints))
      in buildSnake (''ai-'' @ string_of_nat (i + 1)) (sp_head layout) (sp_direction layout) Ai 0)"

text \<open>
  The number of rounds of \<open>for (let i = 0; i < config.aiCount; i += 1)\<close>: none when
  \<open>aiCount\<close> is \<open>NaN\<close>, and \<open>None\<close> when the loop does not end.
\<close>

fun aiRounds :: "jsnum \<Rightarrow> nat option" where
  "aiRounds (Fin q) = Some (nat \<lceil>q\<rceil>)"
| "aiRounds PosInf = None"
| "aiRounds NegInf = Some 0"
| "aiRounds NaN = Some 0"

text \<open>
  Lines 236 to 259 of \<open>createInitialState\<close>, for a config with an integer grid;
  \<open>None\<close> when the loop over the AI snakes does not end.
\<close>

definition initialState :: "GameConfig \<Rightarrow> GameState option" where
  "initialState cfg =
     (case aiRounds (toNumber (aiCount cfg)) of
        None \<Rightarrow> None
      | Some rounds \<Rightarrow>
          let rng = createRng (seed cfg);
              spawnPoints = createSpawnPoints cfg;
              playerLayout = spawnPoints ! 0;
              sns = [buildSnake ''player'' (sp_head playerLayout) (sp_direction playerLayout)
                       Player 0]
                    @ map (initialAi spawnPoints) [0 ..< rounds];
              state = \<lparr>tick = 0, config = cfg, snakes = sns, foods = [],
                       rngState = uint (toUint32 (seed cfg)),
                       status = Running, respawnQueue = []\<rparr>
          in Some (replenishFood state rng))"

text \<open>
  \<open>createInitialState\<close>. The source has no failing path. Here \<open>None\<close> also marks the
  configs that this model does not follow further: with a \<open>cols\<close> or \<open>rows\<close> that is
  not an integer after clamping (a fraction, an infinity or \<open>NaN\<close>) the source goes on
  with coordinates that are no integers.
\<close>

definition createInitialState :: "PartialConfig \<Rightarrow> GameState option" where
  "createInitialState partialConfig =
     (let rawConfig = clampConfig (mergeConfig defaultConfig partialConfig)
      in (case gridConfig rawConfig of
            None \<Rightarrow> None
          | Some cfg \<Rightarrow> initialState cfg))"

subsection \<open>Helpers of the tick\<close>

definition isSnakeSafe :: "Snake \<Rightarrow> int \<Rightarrow> bool" where
  "isSnakeSafe snake t = (t < safeUntilTick snake)"

definition pruneEffects :: "SnakeEffect list \<Rightarrow> int \<Rightarrow> SnakeEffect list" where
  "pruneEffects es t = filter (\<lambda>e. expiresAtTick e > t) es"

definition getSpeedMultiplier :: "SnakeEffect list \<Rightarrow> rat" where
  "getSpeedMultiplier es =
     fold (\<lambda>e m. if eff_type e = SpeedBoost then m * multiplier e else m) es 1"

definition manhattanDistance :: "Vec2 \<Rightarrow> Vec2 \<Rightarrow> int" where
  "manhattanDistance a b = \<bar>vx a - vx b\<bar> + \<bar>vy a - vy b\<bar>"

text \<open>
  The occupancy maps (\<open>Map<string, string>\<close> from cell key to snake id): later
  writes to a cell replace earlier ones.
\<close>

definition buildOccupancy :: "Snake list \<Rightarrow> (Vec2 \<rightharpoonup> string)" where
  "buildOccupancy sns =
     fold (\<lambda>snake occ. fold (\<lambda>seg occ'. occ'(seg \<mapsto> snake_id snake)) (segments snake) occ)
       sns Map.empty"

text \<open>
  JavaScript truthiness of the value of \<open>occupancy.get(key)\<close>: \<open>undefined\<close> and the
  empty string are falsy.
\<close>

definition truthy :: "string option \<Rightarrow> bool" where
  "truthy s = (case s of None \<Rightarrow> False | Some v \<Rightarrow> v \<noteq> [])"

text \<open>
  The \<open>reduce\<close> with \<open>Math.min\<close> that starts from \<open>Infinity\<close>; \<open>None\<close> stands for
  \<open>Infinity\<close>.
\<close>

definition closestFood :: "Food list \<Rightarrow> Vec2 \<Rightarrow> int option" where
  "closestFood fs target =
     fold (\<lambda>food acc. let d = manhattanDistance (position food) target
                      in Some (case acc of None \<Rightarrow> d | Some a \<Rightarrow> min a d)) fs None"

subsection \<open>AI policy\<close>

text \<open>
  Results of type \<open>'a option\<close> below: \<open>None\<close> is the \<open>TypeError\<close> the engine raises
  when it reads a coordinate of \<open>segments[0]\<close> or of the last segment of a snake that
  has no segments.

  The body of the \<open>candidates.forEach\<close> callback of \<open>computeAiTurn\<close>. The accumulator is
  \<open>((bestDirection, bestScore), rng)\<close>; a \<open>bestScore\<close> of \<open>None\<close> is \<open>-Infinity\<close>.
\<close>

definition aiCandidate ::
  "Snake \<Rightarrow> GameState \<Rightarrow> (Vec2 \<rightharpoonup> string) \<Rightarrow> Vec2 \<Rightarrow> Vec2 \<Rightarrow> bool \<Rightarrow> Direction
   \<Rightarrow> (Direction option \<times> rat option) \<times> 32 word
   \<Rightarrow> (Direction option \<times> rat option) \<times> 32 word" where
  "aiCandidate snake state occupancy head tailKey willVacateTail d acc =
     (case acc of ((bestDirection, bestScore), rng) \<Rightarrow>
      let target = nextPosition head d
      in if vx target < 0 \<or> vy target < 0 \<or> vx target \<ge> cols (config state)
            \<or> vy target \<ge> rows (config state) then acc
         else
           let occupant = occupancy target;
               movingIntoSelfTail =
                 (occupant = Some (snake_id snake) \<and> target = tailKey \<and> willVacateTail)
           in if truthy occupant \<and> \<not> movingIntoSelfTail then acc
              else
                let score = 0;
                    score = (if length (foods state) > 0
                             then (case closestFood (foods state) target of
                                     Some closest \<Rightarrow> score - of_int closest
                                   | None \<Rightarrow> score)
                             else score);
                    score = (if d = direction snake then score + 1 / 2 else score);
                    (r, rng') = rng_next rng;
                    score = score + (r - 1 / 2) * (1 / 10)
                in if (case bestScore of None \<Rightarrow> True | Some b \<Rightarrow> score > b)
                   then ((Some d, Some score), rng')
                   else ((bestDirection, bestScore), rng'))"

definition computeAiTurn ::
  "Snake \<Rightarrow> GameState \<Rightarrow> (Vec2 \<rightharpoonup> string) \<Rightarrow> 32 word
   \<Rightarrow> (Direction option \<times> 32 word) option" where
  "computeAiTurn snake state occupancy rng =
     (if \<not> alive snake then Some (None, rng)
      else
        (case segments snake of
           [] \<Rightarrow> None
         | head # rest \<Rightarrow>
             let candidates = filter (\<lambda>d. d \<noteq> opposite (direction snake)) allDirections;
                 tailKey = last (segments snake);
                 willVacateTail = (pendingGrowth snake \<le> 0);
                 ((bestDirection, bestScore), rng') =
                    fold (aiCandidate snake state occupancy head tailKey willVacateTail)
                      candidates ((None, None), rng)
             in Some (bestDirection, rng')))"

subsection \<open>The tick: commands and turns\<close>

definition buildCommandMap :: "InputCommand list \<Rightarrow> (string \<rightharpoonup> Direction)" where
  "buildCommandMap commands =
     fold (\<lambda>command m. m(cmd_snakeId command \<mapsto> cmd_direction command)) commands Map.empty"

definition aiBackfillStep ::
  "GameState \<Rightarrow> (Vec2 \<rightharpoonup> string) \<Rightarrow> Snake \<Rightarrow> (string \<rightharpoonup> Direction) \<times> 32 word
   \<Rightarrow> ((string \<rightharpoonup> Direction) \<times> 32 word) option" where
  "aiBackfillStep state occupancy snake acc =
     (case acc of (commandMap, rng) \<Rightarrow>
      if controller snake = Ai \<and> commandMap (snake_id snake) = None then
        (case computeAiTurn snake state occupancy rng of
           None \<Rightarrow> None
         | Some (aiDirection, rng') \<Rightarrow>
             Some (case aiDirection of
                     Some d \<Rightarrow> commandMap(snake_id snake \<mapsto> d)
                   | None \<Rightarrow> commandMap, rng'))
      else Some acc)"

fun aiBackfill ::
  "GameState \<Rightarrow> (Vec2 \<rightharpoonup> string) \<Rightarrow> Snake list \<Rightarrow> (string \<rightharpoonup> Direction) \<times> 32 word
   \<Rightarrow> ((string \<rightharpoonup> Direction) \<times> 32 word) option" where
  "aiBackfill state occupancy [] acc = Some acc"
| "aiBackfill state occupancy (snake # rest) acc =
     (case aiBackfillStep state occupancy snake acc of
        None \<Rightarrow> None
      | Some acc' \<Rightarrow> aiBackfill state occupancy rest acc')"

text \<open>
  The callback of \<open>state.snakes.map\<close> that prunes effects and applies the command.
  \<open>{ ...snake, effects: activeEffects }\<close> has the fields of \<open>snake\<close> when nothing was
  pruned, so the identity test on \<open>activeEffects\<close> needs no branch here.
\<close>

definition prepareSnake :: "int \<Rightarrow> (string \<rightharpoonup> Direction) \<Rightarrow> Snake \<Rightarrow> Snake" where
  "prepareSnake t commandMap snake =
     (let activeEffects = (if length (effects snake) \<noteq> 0 then pruneEffects (effects snake) t
                           else effects snake);
          current = snake\<lparr>effects := activeEffects\<rparr>
      in if \<not> alive current then current
         else (case commandMap (snake_id current) of
                 Some d \<Rightarrow> applyInput current d
               | None \<Rightarrow> current))"

definition buildSnakeLookup :: "Snake list \<Rightarrow> (string \<rightharpoonup> Snake)" where
  "buildSnakeLookup sns = fold (\<lambda>snake m. m(snake_id snake \<mapsto> snake)) sns Map.empty"

definition buildSafeLookup :: "int \<Rightarrow> Snake list \<Rightarrow> (string \<rightharpoonup> bool)" where
  "buildSafeLookup t sns = fold (\<lambda>snake m. m(snake_id snake \<mapsto> isSnakeSafe snake t)) sns Map.empty"

text \<open>\<open>safeLookup.get(id) ?? false\<close>.\<close>

definition lookupSafe :: "(string \<rightharpoonup> bool) \<Rightarrow> string \<Rightarrow> bool" where
  "lookupSafe safeLookup i = (case safeLookup i of Some b \<Rightarrow> b | None \<Rightarrow> False)"

subsection \<open>The tick: proposed moves\<close>

datatype Reason = Wall | Body | Head

record ProposedMove =
  snake :: Snake
  willMove :: bool
  move_direction :: Direction
  nextHead :: "Vec2 option"
  move_growth :: int
  ateFoodId :: "string option"
  effectTemplate :: "FoodEffectTemplate option"
  newAccumulator :: rat
  move_pendingTurn :: "Direction option"
  collided :: bool
  reason :: "Reason option"
  tailKey :: "Vec2 option"

definition proposeMove :: "GameState \<Rightarrow> Snake \<Rightarrow> ProposedMove option" where
  "proposeMove state sn =
     (if \<not> alive sn then
        Some \<lparr>snake = sn, willMove = False, move_direction = direction sn, nextHead = None,
              move_growth = 0, ateFoodId = None, effectTemplate = None,
              newAccumulator = accumulator sn, move_pendingTurn = pendingTurn sn,
              collided = True, reason = Some Body, tailKey = None\<rparr>
      else
        let (d, pt) = maybeTurn sn;
            effectiveSpeed = speed sn * getSpeedMultiplier (effects sn);
            acc = accumulator sn + effectiveSpeed;
            wm = (acc \<ge> 1);
            newAcc = (if wm then acc - 1 else acc)
        in if \<not> wm then
             Some \<lparr>snake = sn, willMove = wm, move_direction = d, nextHead = None,
                   move_growth = 0, ateFoodId = None, effectTemplate = None,
                   newAccumulator = newAcc, move_pendingTurn = pt,
                   collided = False, reason = None, tailKey = None\<rparr>
           else
             (case segments sn of
                [] \<Rightarrow> None
              | currentHead # rest \<Rightarrow>
                  let delta = directionVectors d;
                      nh = \<lparr>vx = vx currentHead + vx delta, vy = vy currentHead + vy delta\<rparr>;
                      tail = last (segments sn);
                      food = find (\<lambda>item. vx (position item) = vx nh \<and> vy (position item) = vy nh)
                               (foods state);
                      g = (case food of Some f \<Rightarrow> growth f | None \<Rightarrow> 0);
                      tpl = (case food of Some f \<Rightarrow> effect f | None \<Rightarrow> None);
                      fid = (case food of Some f \<Rightarrow> Some (food_id f) | None \<Rightarrow> None);
                      tk = (if pendingGrowth sn + g > 0 then None else Some tail)
                  in Some \<lparr>snake = sn, willMove = wm, move_direction = d, nextHead = Some nh,
                           move_growth = g, ateFoodId = fid, effectTemplate = tpl,
                           newAccumulator = newAcc, move_pendingTurn = pt,
                           collided = False, reason = None, tailKey = tk\<rparr>))"

text \<open>\<open>Array.map\<close> with a callback that may raise.\<close>

fun mapM :: "('a \<Rightarrow> 'b option) \<Rightarrow> 'a list \<Rightarrow> 'b list option" where
  "mapM f [] = Some []"
| "mapM f (v # vs) =
     (case f v of
        None \<Rightarrow> None
      | Some w \<Rightarrow> (case mapM f vs of None \<Rightarrow> None | Some ws \<Rightarrow> Some (w # ws)))"

definition buildMoveBySnake :: "ProposedMove list \<Rightarrow> (string \<rightharpoonup> ProposedMove)" where
  "buildMoveBySnake ms = fold (\<lambda>move m. m(snake_id (snake move) \<mapsto> move)) ms Map.empty"

subsection \<open>The tick: boundary and occupancy checks\<close>

text \<open>
  The callback of the first \<open>proposedMoves.forEach\<close>. It writes only \<open>collided\<close> and
  \<open>reason\<close> of its own move, and of the other moves it reads \<open>willMove\<close>, \<open>nextHead\<close>
  and \<open>tailKey\<close>, which no callback writes; so every move can be checked against the
  moves as they were proposed.
\<close>

definition checkMove ::
  "GameState \<Rightarrow> (Vec2 \<rightharpoonup> string) \<Rightarrow> (string \<rightharpoonup> bool) \<Rightarrow> (string \<rightharpoonup> ProposedMove)
   \<Rightarrow> (string \<rightharpoonup> Snake) \<Rightarrow> ProposedMove \<Rightarrow> ProposedMove option" where
  "checkMove state occupancy safeLookup moveBySnake snakeLookup move =
     (if \<not> willMove move \<or> collided move then Some move
      else
        (case nextHead move of
           None \<Rightarrow> Some move
         | Some nh \<Rightarrow>
             if vx nh < 0 \<or> vy nh < 0 \<or> vx nh \<ge> cols (config state) \<or> vy nh \<ge> rows (config state)
             then Some (move\<lparr>collided := True, reason := Some Wall\<rparr>)
             else
               (case occupancy nh of
                  None \<Rightarrow> Some move
                | Some occupant \<Rightarrow>
                    if occupant = [] then Some move
                    else if occupant = snake_id (snake move) then Some move
                    else
                      let moverSafe = lookupSafe safeLookup (snake_id (snake move));
                          occupantSafe = lookupSafe safeLookup occupant
                      in if moverSafe \<or> occupantSafe then Some move
                         else
                           let otherMove = moveBySnake occupant;
                               occupantSnake = snakeLookup occupant;
                               occupantIsHead =
                                 (case occupantSnake of
                                    None \<Rightarrow> Some False
                                  | Some os \<Rightarrow>
                                      (case segments os of
                                         [] \<Rightarrow> None
                                       | h # rest \<Rightarrow> Some (vx h = vx nh \<and> vy h = vy nh)));
                               otherWillMove = (case otherMove of Some om \<Rightarrow> willMove om | None \<Rightarrow> False);
                               otherNextHead = (case otherMove of Some om \<Rightarrow> nextHead om | None \<Rightarrow> None);
                               isHeadOn =
                                 (case occupantIsHead of
                                    None \<Rightarrow> None
                                  | Some False \<Rightarrow> Some False
                                  | Some True \<Rightarrow>
                                      if \<not> otherWillMove then Some False
                                      else (case otherNextHead of
                                              None \<Rightarrow> Some False
                                            | Some onh \<Rightarrow>
                                                (case segments (snake move) of
                                                   [] \<Rightarrow> None
                                                 | mh # rest \<Rightarrow>
                                                     Some (vx onh = vx mh \<and> vy onh = vy mh))))
                           in (case isHeadOn of
                                 None \<Rightarrow> None
                               | Some True \<Rightarrow> Some move
                               | Some False \<Rightarrow>
                                   let otherTailVacates =
                                         (case otherMove of
                                            Some om \<Rightarrow> willMove om \<and> tailKey om = Some nh
                                          | None \<Rightarrow> False)
                                   in if \<not> otherTailVacates
                                      then Some (move\<lparr>collided := True, reason := Some Body\<rparr>)
                                      else Some move))))"

subsection \<open>The tick: head-to-head collisions\<close>

text \<open>
  \<open>headCollisions\<close> is a \<open>Map\<close> from cell to the list of moves that target it, kept
  here in insertion order as an association list. A move is named by its index in
  \<open>proposedMoves\<close>, which stands for the identity of the move object
  (\<open>move !== winner\<close>).
\<close>

definition pushHead :: "(Vec2 \<times> nat list) list \<Rightarrow> Vec2 \<Rightarrow> nat \<Rightarrow> (Vec2 \<times> nat list) list" where
  "pushHead hc key i =
     (case map_of hc key of
        None \<Rightarrow> hc @ [(key, [i])]
      | Some list \<Rightarrow> AList.update key (list @ [i]) hc)"

definition collectStep :: "ProposedMove list \<Rightarrow> nat \<Rightarrow> (Vec2 \<times> nat list) list \<Rightarrow> (Vec2 \<times> nat list) list" where
  "collectStep ms i hc =
     (let move = ms ! i
      in if \<not> willMove move \<or> collided move then hc
         else (case nextHead move of None \<Rightarrow> hc | Some nh \<Rightarrow> pushHead hc nh i))"

definition collectHeadCollisions :: "ProposedMove list \<Rightarrow> (Vec2 \<times> nat list) list" where
  "collectHeadCollisions ms = fold (collectStep ms) [0 ..< length ms] []"

definition markHead :: "ProposedMove \<Rightarrow> ProposedMove" where
  "markHead move = move\<lparr>collided := True, reason := Some Head\<rparr>"

definition markAll :: "nat list \<Rightarrow> ProposedMove list \<Rightarrow> ProposedMove list" where
  "markAll losers ms = fold (\<lambda>i ms'. ms'[i := markHead (ms' ! i)]) losers ms"

definition moveLength :: "ProposedMove list \<Rightarrow> nat \<Rightarrow> nat" where
  "moveLength ms i = length (segments (snake (ms ! i)))"

text \<open>The callback of \<open>headCollisions.forEach\<close>, for the list \<open>moves\<close> of one cell.\<close>

definition resolveGroup :: "(string \<rightharpoonup> bool) \<Rightarrow> nat list \<Rightarrow> ProposedMove list \<Rightarrow> ProposedMove list" where
  "resolveGroup safeLookup moves ms =
     (if length moves \<le> 1 then ms
      else
        let interactive = filter (\<lambda>i. \<not> lookupSafe safeLookup (snake_id (snake (ms ! i)))) moves
        in if length interactive \<le> 1 then ms
           else
             let maxLength = Max (set (map (moveLength ms) interactive));
                 winners = filter (\<lambda>i. moveLength ms i = maxLength) interactive
             in if length winners = 1
                then (let winner = winners ! 0
                      in markAll (filter (\<lambda>i. i \<noteq> winner) interactive) ms)
                else markAll interactive ms)"

definition resolveHeadCollisions :: "(string \<rightharpoonup> bool) \<Rightarrow> ProposedMove list \<Rightarrow> ProposedMove list" where
  "resolveHeadCollisions safeLookup ms =
     fold (\<lambda>entry ms'. resolveGroup safeLookup (snd entry) ms') (collectHeadCollisions ms) ms"

subsection \<open>The tick: applying the moves\<close>

text \<open>
  The callback of \<open>proposedMoves.map\<close> that builds \<open>nextSnakes\<close>. The non-null
  assertion \<open>move.nextHead!\<close> is the \<open>None\<close> branch: a move that goes ahead has a
  next head.
\<close>

definition applyMove :: "int \<Rightarrow> ProposedMove \<Rightarrow> Snake option" where
  "applyMove t move =
     (let sn = snake move
      in if \<not> alive sn then Some sn
         else if \<not> willMove move then
           Some (sn\<lparr>direction := move_direction move,
                    pendingTurn := move_pendingTurn move,
                    accumulator := newAccumulator move\<rparr>)
         else if collided move then
           Some (sn\<lparr>alive := False, pendingTurn := None, accumulator := 0, pendingGrowth := 0,
                    effects := [], safeUntilTick := t\<rparr>)
         else
           (case nextHead move of
              None \<Rightarrow> None
            | Some nh \<Rightarrow>
                let newSegments = nh # segments sn;
                    pg = pendingGrowth sn + move_growth move;
                    (pg', newSegments') =
                       (if pg > 0 then (pg - 1, newSegments) else (pg, butlast newSegments));
                    effs = (case effectTemplate move of
                              Some tpl \<Rightarrow>
                                effects sn @ [\<lparr>eff_type = tpl_type tpl,
                                               multiplier = tpl_multiplier tpl,
                                               expiresAtTick = t + duration tpl\<rparr>]
                            | None \<Rightarrow> effects sn)
                in Some (sn\<lparr>segments := newSegments',
                            direction := move_direction move,
                            pendingTurn := move_pendingTurn move,
                            accumulator := newAccumulator move,
                            pendingGrowth := pg',
                            effects := effs\<rparr>)))"

text \<open>The ticket pushed to \<open>respawnTicketsToAdd\<close> by the same callback.\<close>

definition ticketFor :: "ProposedMove \<Rightarrow> RespawnTicket list" where
  "ticketFor move =
     (let sn = snake move
      in if alive sn \<and> willMove move \<and> collided move \<and> controller sn = Ai
         then [\<lparr>snakeId = snake_id sn, ticket_controller = controller sn,
                ticksRemaining = RESPAWN_DELAY_TICKS\<rparr>]
         else [])"

subsection \<open>The tick: respawns\<close>

definition fits :: "GameState \<Rightarrow> Vec2 set \<Rightarrow> Snake \<Rightarrow> bool" where
  "fits state occupied candidate =
     list_all (\<lambda>segment.
        if vx segment < 0 \<or> vy segment < 0 \<or> vx segment \<ge> cols (config state)
           \<or> vy segment \<ge> rows (config state)
        then False
        else segment \<notin> occupied) (segments candidate)"

text \<open>The \<open>for\<close> loop over the spawn layouts, from \<open>startIndex\<close> on, until one fits.\<close>

fun tryLayouts ::
  "GameState \<Rightarrow> int \<Rightarrow> Vec2 set \<Rightarrow> SpawnLayout list \<Rightarrow> RespawnTicket \<Rightarrow> nat \<Rightarrow> nat list
   \<Rightarrow> Snake option" where
  "tryLayouts state nextTick occupied spawnLayouts ticket startIndex [] = None"
| "tryLayouts state nextTick occupied spawnLayouts ticket startIndex (i # rest) =
     (let layout = spawnLayouts ! ((startIndex + i) mod length spawnLayouts);
          candidate = buildSnake (snakeId ticket) (sp_head layout) (sp_direction layout)
                        (ticket_controller ticket) (nextTick + SAFE_RESPAWN_TICKS)
      in if fits state occupied candidate then Some candidate
         else tryLayouts state nextTick occupied spawnLayouts ticket startIndex rest)"

definition trySpawn ::
  "GameState \<Rightarrow> int \<Rightarrow> Vec2 set \<Rightarrow> SpawnLayout list \<Rightarrow> RespawnTicket \<Rightarrow> 32 word
   \<Rightarrow> Snake option \<times> 32 word" where
  "trySpawn state nextTick occupied spawnLayouts ticket rng =
     (if length spawnLayouts > 0 then
        (let (r, rng') = rng_next rng;
             startIndex = nat \<lfloor>r * of_nat (length spawnLayouts)\<rfloor>
         in (tryLayouts state nextTick occupied spawnLayouts ticket startIndex
               [0 ..< length spawnLayouts], rng'))
      else (None, rng))"

record RespawnAcc =
  occupied :: "Vec2 set"
  respawnedSnakes :: "Snake list"
  updatedQueue :: "RespawnTicket list"
  acc_rng :: "32 word"

text \<open>The callback of \<open>combinedQueue.forEach\<close>.\<close>

definition processTicket ::
  "GameState \<Rightarrow> int \<Rightarrow> SpawnLayout list \<Rightarrow> RespawnTicket \<Rightarrow> RespawnAcc \<Rightarrow> RespawnAcc" where
  "processTicket state nextTick spawnLayouts ticket acc =
     (let remaining = ticksRemaining ticket - 1
      in if ticket_controller ticket \<noteq> Ai then
           (if remaining > 0
            then acc\<lparr>updatedQueue := updatedQueue acc @ [ticket\<lparr>ticksRemaining := remaining\<rparr>]\<rparr>
            else acc)
         else if remaining > 0 then
           acc\<lparr>updatedQueue := updatedQueue acc @ [ticket\<lparr>ticksRemaining := remaining\<rparr>]\<rparr>
         else
           (let (spawned, rng') = trySpawn state nextTick (occupied acc) spawnLayouts ticket
                                    (acc_rng acc)
            in (case spawned of
                  Some sp \<Rightarrow>
                    acc\<lparr>respawnedSnakes := respawnedSnakes acc @ [sp],
                        occupied := occupied acc \<union> set (segments sp),
                        acc_rng := rng'\<rparr>
                | None \<Rightarrow>
                    acc\<lparr>updatedQueue := updatedQueue acc @ [ticket\<lparr>ticksRemaining := 1\<rparr>],
                        acc_rng := rng'\<rparr>)))"

subsection \<open>The tick\<close>

text \<open>
  Lines 314 to 354 of \<open>advanceState\<close>: the generator, the command map, the AI
  commands and the snakes with pruned effects and queued turns.
\<close>

definition prepareTick :: "GameState \<Rightarrow> InputCommand list \<Rightarrow> (Snake list \<times> 32 word) option" where
  "prepareTick state commands =
     (let rng = createRng (intNum (rngState state));
          commandMap = buildCommandMap commands;
          initialOccupancy = buildOccupancy (snakes state)
      in (case aiBackfill state initialOccupancy (snakes state) (commandMap, rng) of
            None \<Rightarrow> None
          | Some (commandMap', rng') \<Rightarrow>
              Some (map (prepareSnake (tick state) commandMap') (snakes state), rng')))"

text \<open>Lines 356 to 481: the proposed moves after the boundary and occupancy checks.\<close>

definition checkedMoves :: "GameState \<Rightarrow> Snake list \<Rightarrow> ProposedMove list option" where
  "checkedMoves state sns =
     (let snakeLookup = buildSnakeLookup sns;
          safeLookup = buildSafeLookup (tick state) sns;
          occupancy = buildOccupancy sns
      in (case mapM (proposeMove state) sns of
            None \<Rightarrow> None
          | Some proposedMoves \<Rightarrow>
              let moveBySnake = buildMoveBySnake proposedMoves
              in mapM (checkMove state occupancy safeLookup moveBySnake snakeLookup)
                   proposedMoves))"

text \<open>Lines 483 to 521 follow: the moves as \<open>nextSnakes\<close> reads them.\<close>

definition finalMoves :: "GameState \<Rightarrow> Snake list \<Rightarrow> ProposedMove list option" where
  "finalMoves state sns =
     (case checkedMoves state sns of
        None \<Rightarrow> None
      | Some ms \<Rightarrow> Some (resolveHeadCollisions (buildSafeLookup (tick state) sns) ms))"

text \<open>Lines 587 to 678: survivors, eaten food, respawns, new food and the status.\<close>

definition finishTick ::
  "GameState \<Rightarrow> 32 word \<Rightarrow> ProposedMove list \<Rightarrow> Snake list \<Rightarrow> GameState" where
  "finishTick state rng proposedMoves nextSnakes =
     (let respawnTicketsToAdd = concat (map ticketFor proposedMoves);
          survivors = filter alive nextSnakes;
          foodsAfterEat =
            filter (\<lambda>food. \<not> list_ex (\<lambda>move. ateFoodId move = Some (food_id food)) proposedMoves)
              (foods state);
          combinedQueue = respawnQueue state @ respawnTicketsToAdd;
          spawnLayouts = createSpawnPoints (config state);
          nextTick = tick state + 1;
          acc = fold (processTicket state nextTick spawnLayouts) combinedQueue
                  \<lparr>occupied = occupiedCells survivors foodsAfterEat, respawnedSnakes = [],
                   updatedQueue = [], acc_rng = rng\<rparr>;
          allSnakes = survivors @ respawnedSnakes acc;
          withFood = replenishFood
                       (state\<lparr>snakes := allSnakes, foods := foodsAfterEat, tick := nextTick,
                              rngState := rng_state (acc_rng acc),
                              respawnQueue := updatedQueue acc\<rparr>)
                       (acc_rng acc);
          st = (if length allSnakes = 0 \<or> \<not> list_ex (\<lambda>sn. controller sn = Player) allSnakes
                then Gameover else Running)
      in withFood\<lparr>snakes := allSnakes, respawnQueue := updatedQueue acc, status := st\<rparr>)"

definition advanceState :: "GameState \<Rightarrow> InputCommand list \<Rightarrow> GameState option" where
  "advanceState state commands =
     (if status state \<noteq> Running then Some state
      else
        (case prepareTick state commands of
           None \<Rightarrow> None
         | Some (sns, rng) \<Rightarrow>
             (case finalMoves state sns of
                None \<Rightarrow> None
              | Some proposedMoves \<Rightarrow>
                  (case mapM (applyMove (tick state)) proposedMoves of
                     None \<Rightarrow> None
                   | Some nextSnakes \<Rightarrow> Some (finishTick state rng proposedMoves nextSnakes)))))"

section \<open>Notions used in the statements\<close>

inductive reachable :: "GameState \<Rightarrow> bool" where
  reach_init: "createInitialState p = Some s \<Longrightarrow> reachable s"
| reach_step: "reachable s \<Longrightarrow> advanceState s commands = Some s' \<Longrightarrow> reachable s'"

definition snakeOk :: "Snake \<Rightarrow> bool" where
  "snakeOk sn = (alive sn \<and> segments sn \<noteq> [] \<and> speed sn = 1 \<and> 0 \<le> accumulator sn
                 \<and> list_all (\<lambda>e. 1 \<le> multiplier e) (effects sn))"

definition foodOk :: "Food \<Rightarrow> bool" where
  "foodOk f = ((case effect f of None \<Rightarrow> True | Some tpl \<Rightarrow> 1 \<le> tpl_multiplier tpl)
               \<and> (kind f = Standard \<longrightarrow> growth f = 1))"

text \<open>
  The invariant of the states of a run: every snake is alive, has a segment, has
  speed 1, a non-negative accumulator and only multipliers of at least 1; every food
  has the growth and effect of its kind; there are at most \<open>MAX_FOOD\<close> foods; and no
  id occurs twice among the snakes and the respawn tickets.
\<close>

definition stateOk :: "GameState \<Rightarrow> bool" where
  "stateOk s = (list_all snakeOk (snakes s) \<and> list_all foodOk (foods s)
                \<and> length (foods s) \<le> MAX_FOOD
                \<and> distinct (map snake_id (snakes s) @ map snakeId (respawnQueue s)))"

text \<open>Two moves that differ at most in the collision flag and its reason.\<close>

definition sameMove :: "ProposedMove \<Rightarrow> ProposedMove \<Rightarrow> bool" where
  "sameMove m m' = (snake m' = snake m \<and> willMove m' = willMove m
     \<and> move_direction m' = move_direction m \<and> nextHead m' = nextHead m
     \<and> move_growth m' = move_growth m \<and> ateFoodId m' = ateFoodId m
     \<and> effectTemplate m' = effectTemplate m \<and> newAccumulator m' = newAccumulator m
     \<and> move_pendingTurn m' = move_pendingTurn m \<and> tailKey m' = tailKey m)"

definition contenders :: "ProposedMove list \<Rightarrow> Vec2 \<Rightarrow> nat list" where
  "contenders ms c =
     filter (\<lambda>i. willMove (ms ! i) \<and> \<not> collided (ms ! i) \<and> nextHead (ms ! i) = Some c)
       [0 ..< length ms]"

definition contestants :: "(string \<rightharpoonup> bool) \<Rightarrow> ProposedMove list \<Rightarrow> Vec2 \<Rightarrow> nat list" where
  "contestants sl ms c =
     filter (\<lambda>i. \<not> lookupSafe sl (snake_id (snake (ms ! i)))) (contenders ms c)"

definition losers :: "(string \<rightharpoonup> bool) \<Rightarrow> ProposedMove list \<Rightarrow> nat list \<Rightarrow> nat list" where
  "losers sl ms g =
     (if length g \<le> 1 then []
      else
        let interactive = filter (\<lambda>i. \<not> lookupSafe sl (snake_id (snake (ms ! i)))) g
        in if length interactive \<le> 1 then []
           else
             let maxLength = Max (set (map (moveLength ms) interactive));
                 winners = filter (\<lambda>i. moveLength ms i = maxLength) interactive
             in if length winners = 1
                then filter (\<lambda>i. i \<noteq> winners ! 0) interactive
                else interactive)"

definition targets :: "ProposedMove list \<Rightarrow> nat \<Rightarrow> Vec2 \<Rightarrow> bool" where
  "targets ms i c = (willMove (ms ! i) \<and> \<not> collided (ms ! i) \<and> nextHead (ms ! i) = Some c)"

text \<open>Names for two intermediate values of \<open>finishTick\<close>.\<close>

definition uneatenFoods :: "GameState \<Rightarrow> ProposedMove list \<Rightarrow> Food list" where
  "uneatenFoods state proposedMoves =
     filter (\<lambda>food. \<not> list_ex (\<lambda>move. ateFoodId move = Some (food_id food)) proposedMoves)
       (foods state)"

definition respawnAcc ::
  "GameState \<Rightarrow> 32 word \<Rightarrow> ProposedMove list \<Rightarrow> Snake list \<Rightarrow> RespawnAcc" where
  "respawnAcc state rng proposedMoves nextSnakes =
     fold (processTicket state (tick state + 1) (createSpawnPoints (config state)))
       (respawnQueue state @ concat (map ticketFor proposedMoves))
       \<lparr>occupied = occupiedCells (filter alive nextSnakes) (uneatenFoods state proposedMoves),
        respawnedSnakes = [], updatedQueue = [], acc_rng = rng\<rparr>"

text \<open>The ids held by the respawn accumulator.\<close>

definition accIds :: "RespawnAcc \<Rightarrow> string multiset" where
  "accIds acc = mset (map snake_id (respawnedSnakes acc)) + mset (map snakeId (updatedQueue acc))"

text \<open>The food, if any, that a head moving to \<open>nh\<close> eats (the \<open>find\<close> of \<open>advanceState\<close>).\<close>

definition foodAt :: "GameState \<Rightarrow> Vec2 \<Rightarrow> Food option" where
  "foodAt state nh =
     find (\<lambda>item. vx (position item) = vx nh \<and> vy (position item) = vy nh) (foods state)"


definition negativeSeed :: PartialConfig where
  "negativeSeed =
     \<lparr>p_cols = None, p_rows = None, p_tickRate = None, p_seed = Some (Number (Fin (- 1))),
      p_aiCount = None\<rparr>"

section \<open>Example states\<close>

definition exampleSnake ::
  "string \<Rightarrow> Vec2 list \<Rightarrow> Direction \<Rightarrow> Controller \<Rightarrow> int \<Rightarrow> Snake" where
  "exampleSnake i segs d c su =
     \<lparr>snake_id = i, segments = segs, direction = d, alive = True, pendingTurn = None,
      speed = 1, accumulator = 0, controller = c, pendingGrowth = 0, effects = [],
      safeUntilTick = su\<rparr>"

definition standardFood :: "string \<Rightarrow> int \<Rightarrow> int \<Rightarrow> Food" where
  "standardFood i px py =
     \<lparr>food_id = i, position = \<lparr>vx = px, vy = py\<rparr>, kind = Standard, growth = 1, effect = None\<rparr>"

definition exampleConfig :: GameConfig where
  "exampleConfig =
     \<lparr>cols = 8, rows = 8, tickRate = Number (Fin 10), seed = Number (Fin 1),
      aiCount = Number (Fin 2)\<rparr>"

text \<open>Five foods on the bottom row, so that no tick of the examples adds food.\<close>

definition exampleFoods :: "Food list" where
  "exampleFoods =
     [standardFood ''f0'' 0 7, standardFood ''f1'' 1 7, standardFood ''f2'' 2 7,
      standardFood ''f3'' 3 7, standardFood ''f4'' 4 7]"

text \<open>A player that moves right on an 8 by 8 grid while the ticket of \<open>ai-1\<close> runs out.\<close>

definition respawnExample :: GameState where
  "respawnExample =
     \<lparr>tick = 20, config = exampleConfig,
      snakes = [exampleSnake ''player'' [\<lparr>vx = 3, vy = 4\<rparr>, \<lparr>vx = 2, vy = 4\<rparr>, \<lparr>vx = 1, vy = 4\<rparr>]
                  Right Player 0],
      foods = exampleFoods, rngState = 7, status = Running,
      respawnQueue = [\<lparr>snakeId = ''ai-1'', ticket_controller = Ai, ticksRemaining = 1\<rparr>]\<rparr>"

definition respawnNext :: GameState where
  "respawnNext =
     \<lparr>tick = 21, config = exampleConfig,
      snakes = [exampleSnake ''player'' [\<lparr>vx = 4, vy = 4\<rparr>, \<lparr>vx = 3, vy = 4\<rparr>, \<lparr>vx = 2, vy = 4\<rparr>]
                  Right Player 0,
                exampleSnake ''ai-1'' [\<lparr>vx = 3, vy = 3\<rparr>, \<lparr>vx = 2, vy = 3\<rparr>, \<lparr>vx = 1, vy = 3\<rparr>]
                  Right Ai 33],
      foods = exampleFoods, rngState = 1831565820, status = Running, respawnQueue = []\<rparr>"

section \<open>Runs\<close>

text \<open>
  A run: the state of \<open>createInitialState\<close> followed by one \<open>advanceState\<close> call for
  each element of a list of per-tick command lists. The result is the list of all
  states of the run, the initial one first.
\<close>

fun runFrom :: "GameState \<Rightarrow> InputCommand list list \<Rightarrow> GameState list option" where
  "runFrom s [] = Some [s]"
| "runFrom s (commands # rest) =
     (case advanceState s commands of
        None \<Rightarrow> None
      | Some s' \<Rightarrow> map_option ((#) s) (runFrom s' rest))"

definition run :: "PartialConfig \<Rightarrow> InputCommand list list \<Rightarrow> GameState list option" where
  "run p ticks = (case createInitialState p of None \<Rightarrow> None | Some s \<Rightarrow> runFrom s ticks)"

section \<open>Basic facts\<close>

lemma replenishFood_config: "config (replenishFood state rng) = config state"
  by (simp add: replenishFood_def Let_def split: prod.splits)


lemma createInitialState_Some:
  "createInitialState p = Some s \<longleftrightarrow>
     (\<exists>cfg. gridConfig (clampConfig (mergeConfig defaultConfig p)) = Some cfg
            \<and> initialState cfg = Some s)"
  by (auto simp: createInitialState_def Let_def split: option.splits)


lemma mapM_list_all2: "mapM f vs = Some ws \<Longrightarrow> list_all2 (\<lambda>v w. f v = Some w) vs ws"
  by (induction vs arbitrary: ws) (auto split: option.splits)

lemma mapM_length: "mapM f vs = Some ws \<Longrightarrow> length ws = length vs"
  by (drule mapM_list_all2) (simp add: list_all2_lengthD)

lemma mapM_nth: "mapM f vs = Some ws \<Longrightarrow> i < length vs \<Longrightarrow> f (vs ! i) = Some (ws ! i)"
  using list_all2_nthD [OF mapM_list_all2, of f vs ws i] by simp

lemma mapM_total: "(\<And>v. v \<in> set vs \<Longrightarrow> f v \<noteq> None) \<Longrightarrow> \<exists>ws. mapM f vs = Some ws"
  by (induction vs) (auto split: option.splits)

lemma fillFoods_length:
  "length (fst (fillFoods state occ fs rng)) \<le> max MAX_FOOD (length fs)"
proof (induction state occ fs rng rule: fillFoods.induct)
  case (1 state occ fs rng)
  show ?case
  proof (cases "length fs < MAX_FOOD")
    case False
    then show ?thesis by (simp add: fillFoods.simps [of state occ fs rng])
  next
    case True
    obtain r rng' where p: "placeFood (nat (cols (config state) * rows (config state))) state occ (length fs) rng = (r, rng')"
      by (cases "placeFood (nat (cols (config state) * rows (config state))) state occ (length fs) rng")
    show ?thesis
    proof (cases r)
      case None
      with True p show ?thesis by (simp add: fillFoods.simps [of state occ fs rng])
    next
      case (Some f)
      with True p "1.IH" [of r rng' f] show ?thesis
        by (auto simp add: fillFoods.simps [of state occ fs rng])
    qed
  qed
qed

lemma replenishFood_length:
  "length (foods (replenishFood state rng)) \<le> max MAX_FOOD (length (foods state))"
  using fillFoods_length [of state "occupiedCells (snakes state) (foods state)" "foods state" rng]
  by (auto simp: replenishFood_def Let_def split: prod.splits)

lemma replenishFood_snakes: "snakes (replenishFood state rng) = snakes state"
  by (simp add: replenishFood_def Let_def split: prod.splits)

lemma sameMove_refl: "sameMove m m"
  by (simp add: sameMove_def)

lemma sameMove_trans: "sameMove a b \<Longrightarrow> sameMove b c \<Longrightarrow> sameMove a c"
  by (simp add: sameMove_def)

lemma sameMove_markHead: "sameMove m (markHead m)"
  by (simp add: sameMove_def markHead_def)

lemma getSpeedMultiplier_ge_aux:
  "list_all (\<lambda>e. 1 \<le> multiplier e) es \<Longrightarrow> 1 \<le> m \<Longrightarrow>
   1 \<le> fold (\<lambda>e m. if eff_type e = SpeedBoost then m * multiplier e else m) es m"
proof (induction es arbitrary: m)
  case Nil
  then show ?case by simp
next
  case (Cons e es)
  from Cons.prems have "1 \<le> m * multiplier e"
    using mult_mono [of 1 m 1 "multiplier e"] by simp
  with Cons show ?case by simp
qed

lemma getSpeedMultiplier_ge: "list_all (\<lambda>e. 1 \<le> multiplier e) es \<Longrightarrow> 1 \<le> getSpeedMultiplier es"
  unfolding getSpeedMultiplier_def by (rule getSpeedMultiplier_ge_aux) simp_all

lemma prepareSnake_fields:
  "snake_id (prepareSnake t cm sn) = snake_id sn \<and> segments (prepareSnake t cm sn) = segments sn
   \<and> alive (prepareSnake t cm sn) = alive sn \<and> speed (prepareSnake t cm sn) = speed sn
   \<and> accumulator (prepareSnake t cm sn) = accumulator sn
   \<and> controller (prepareSnake t cm sn) = controller sn
   \<and> pendingGrowth (prepareSnake t cm sn) = pendingGrowth sn
   \<and> safeUntilTick (prepareSnake t cm sn) = safeUntilTick sn
   \<and> direction (prepareSnake t cm sn) = direction sn
   \<and> effects (prepareSnake t cm sn) = pruneEffects (effects sn) t"
  by (auto simp: prepareSnake_def Let_def applyInput_def pruneEffects_def split: option.splits)

lemma prepareSnake_ok: "snakeOk sn \<Longrightarrow> snakeOk (prepareSnake t cm sn)"
  by (simp add: snakeOk_def prepareSnake_fields pruneEffects_def list_all_iff)

lemma proposeMove_snake: "proposeMove state sn = Some m \<Longrightarrow> snake m = sn"
  by (auto simp: proposeMove_def Let_def split: if_splits prod.splits list.splits)

lemma proposeMove_ok:
  assumes "snakeOk sn"
  shows "\<exists>m nh. proposeMove state sn = Some m \<and> snake m = sn \<and> willMove m \<and> \<not> collided m
           \<and> nextHead m = Some nh
           \<and> newAccumulator m = accumulator sn + getSpeedMultiplier (effects sn) - 1
           \<and> move_direction m = fst (maybeTurn sn)"
proof -
  from assms have "1 \<le> getSpeedMultiplier (effects sn)"
    by (simp add: snakeOk_def getSpeedMultiplier_ge)
  with assms have wm: "accumulator sn + speed sn * getSpeedMultiplier (effects sn) \<ge> 1"
    by (simp add: snakeOk_def)
  from assms obtain h rest where seg: "segments sn = h # rest"
    by (cases "segments sn") (auto simp: snakeOk_def)
  from assms have sp: "speed sn = 1" and al: "alive sn" by (simp_all add: snakeOk_def)
  show ?thesis
    using wm seg sp al by (simp add: proposeMove_def Let_def split: prod.splits)
qed

lemma checkMove_same:
  "checkMove state occ sl mbs slk m = Some m' \<Longrightarrow> sameMove m m'"
  unfolding checkMove_def Let_def
  by (auto simp: sameMove_def split: if_splits option.splits list.splits bool.splits)

lemma checkMove_total:
  assumes "\<And>i os. slk i = Some os \<Longrightarrow> segments os \<noteq> []" and "segments (snake m) \<noteq> []"
  shows "\<exists>m'. checkMove state occ sl mbs slk m = Some m'"
  unfolding checkMove_def Let_def using assms
  by (auto split: if_splits option.splits list.splits bool.splits)

lemma fold_upd_lookup:
  "fold (\<lambda>v m. m(k v \<mapsto> g v)) vs m0 i = Some w \<Longrightarrow> (\<exists>v \<in> set vs. w = g v \<and> i = k v) \<or> m0 i = Some w"
  by (induction vs arbitrary: m0) (fastforce split: if_splits)+

lemma buildSnakeLookup_mem: "buildSnakeLookup sns i = Some sn \<Longrightarrow> sn \<in> set sns \<and> snake_id sn = i"
  unfolding buildSnakeLookup_def
  using fold_upd_lookup [of snake_id "\<lambda>v. v" sns Map.empty i sn] by auto

lemma fold_upd_other:
  "i \<notin> k ` set vs \<Longrightarrow> fold (\<lambda>v m. m(k v \<mapsto> g v)) vs m0 i = m0 i"
  by (induction vs arbitrary: m0) auto

lemma fold_upd_distinct:
  "distinct (map k vs) \<Longrightarrow> v \<in> set vs \<Longrightarrow> fold (\<lambda>v m. m(k v \<mapsto> g v)) vs m0 (k v) = Some (g v)"
proof (induction vs arbitrary: m0)
  case Nil
  then show ?case by simp
next
  case (Cons a vs)
  show ?case
  proof (cases "v \<in> set vs")
    case True
    with Cons show ?thesis by simp
  next
    case False
    with Cons.prems have va: "v = a" and nk: "k a \<notin> k ` set vs" by auto
    show ?thesis
      using fold_upd_other [OF nk, of g "m0(k a \<mapsto> g a)"] va by (simp add: fun_upd_def)
  qed
qed

lemma buildSafeLookup_distinct:
  "distinct (map snake_id sns) \<Longrightarrow> sn \<in> set sns \<Longrightarrow>
   lookupSafe (buildSafeLookup t sns) (snake_id sn) = isSnakeSafe sn t"
  unfolding buildSafeLookup_def lookupSafe_def
  by (simp add: fold_upd_distinct [of snake_id sns sn "\<lambda>s. isSnakeSafe s t"])

lemma markAll_Nil: "markAll [] ms = ms"
  by (simp add: markAll_def)

lemma resolveGroup_losers: "resolveGroup sl g ms = markAll (losers sl ms g) ms"
  by (simp add: resolveGroup_def losers_def Let_def markAll_Nil)

lemma markHead_idem: "markHead (markHead m) = markHead m"
  by (simp add: markHead_def)

lemma markAll_length: "length (markAll L ms) = length ms"
  unfolding markAll_def by (induction L arbitrary: ms) auto

lemma markAll_nth:
  "j < length ms \<Longrightarrow> markAll L ms ! j = (if j \<in> set L then markHead (ms ! j) else ms ! j)"
  unfolding markAll_def
proof (induction L arbitrary: ms)
  case Nil
  then show ?case by simp
next
  case (Cons a L)
  then show ?case
    by (cases "a = j") (auto simp: markHead_idem nth_list_update)
qed

lemma losers_cong:
  assumes "\<And>j. j \<in> set g \<Longrightarrow> snake (ms' ! j) = snake (ms ! j)"
  shows "losers sl ms' g = losers sl ms g"
proof -
  let ?I = "filter (\<lambda>i. \<not> lookupSafe sl (snake_id (snake (ms ! i)))) g"
  have i: "filter (\<lambda>i. \<not> lookupSafe sl (snake_id (snake (ms' ! i)))) g = ?I"
    by (rule filter_cong) (simp_all add: assms)
  have l: "\<And>j. j \<in> set ?I \<Longrightarrow> moveLength ms' j = moveLength ms j"
    by (simp add: moveLength_def assms)
  then have m: "map (moveLength ms') ?I = map (moveLength ms) ?I"
    by (intro map_cong) simp_all
  have w: "filter (\<lambda>i. moveLength ms' i = n) ?I = filter (\<lambda>i. moveLength ms i = n) ?I" for n
    using l by (intro filter_cong) simp_all
  show ?thesis
    unfolding losers_def Let_def i m w ..
qed

lemma losers_subset: "set (losers sl ms g) \<subseteq> set g"
  by (auto simp: losers_def Let_def)

lemma fold_resolve_nth:
  assumes "length ms1 = length ms"
    and "\<And>j. j < length ms \<Longrightarrow> sameMove (ms ! j) (ms1 ! j)"
    and "\<And>e. e \<in> set hc \<Longrightarrow> set (snd e) \<subseteq> {..< length ms}"
  shows "length (fold (\<lambda>entry ms'. resolveGroup sl (snd entry) ms') hc ms1) = length ms
     \<and> (\<forall>j < length ms.
          fold (\<lambda>entry ms'. resolveGroup sl (snd entry) ms') hc ms1 ! j =
            (if \<exists>e \<in> set hc. j \<in> set (losers sl ms (snd e)) then markHead (ms1 ! j) else ms1 ! j))"
  using assms
proof (induction hc arbitrary: ms1)
  case Nil
  then show ?case by simp
next
  case (Cons e hc)
  let ?g = "snd e"
  let ?ms2 = "resolveGroup sl ?g ms1"
  have sub: "set ?g \<subseteq> {..< length ms}" using Cons.prems(3) by simp
  have lc: "losers sl ms1 ?g = losers sl ms ?g"
  proof (rule losers_cong)
    fix j assume "j \<in> set ?g"
    with sub have "j < length ms" by auto
    then show "snake (ms1 ! j) = snake (ms ! j)"
      using Cons.prems(2) by (simp add: sameMove_def)
  qed
  have ms2: "?ms2 = markAll (losers sl ms ?g) ms1"
    by (simp add: resolveGroup_losers lc)
  have len2: "length ?ms2 = length ms"
    by (simp add: ms2 markAll_length Cons.prems(1))
  have nth2: "?ms2 ! j = (if j \<in> set (losers sl ms ?g) then markHead (ms1 ! j) else ms1 ! j)"
    if "j < length ms" for j
    using that by (simp add: ms2 markAll_nth Cons.prems(1))
  have same2: "sameMove (ms ! j) (?ms2 ! j)" if "j < length ms" for j
    using that Cons.prems(2) [OF that] nth2 [OF that]
    by (auto intro: sameMove_trans sameMove_markHead)
  have ih: "length (fold (\<lambda>entry ms'. resolveGroup sl (snd entry) ms') hc ?ms2) = length ms
     \<and> (\<forall>j < length ms.
          fold (\<lambda>entry ms'. resolveGroup sl (snd entry) ms') hc ?ms2 ! j =
            (if \<exists>e \<in> set hc. j \<in> set (losers sl ms (snd e)) then markHead (?ms2 ! j) else ?ms2 ! j))"
    using Cons.prems(3) by (intro Cons.IH len2 same2) simp_all
  show ?case
    using ih nth2 by (auto simp: markHead_idem)
qed

lemma pushHead_distinct:
  "distinct (map fst hc) \<Longrightarrow> distinct (map fst (pushHead hc k i))"
  by (auto simp: pushHead_def AList.distinct_update map_of_eq_None_iff split: option.splits)

lemma pushHead_map_of:
  "map_of (pushHead hc k i) c =
     (if c = k then Some ((case map_of hc k of None \<Rightarrow> [] | Some l \<Rightarrow> l) @ [i]) else map_of hc c)"
  by (auto simp: pushHead_def AList.update_conv' map_add_def split: option.splits)

lemma collectStep_distinct:
  "distinct (map fst hc) \<Longrightarrow> distinct (map fst (collectStep ms i hc))"
  by (auto simp: collectStep_def Let_def pushHead_distinct split: option.splits)

lemma collectStep_map_of:
  "map_of (collectStep ms i hc) c =
     (if targets ms i c then Some ((case map_of hc c of None \<Rightarrow> [] | Some l \<Rightarrow> l) @ [i])
      else map_of hc c)"
  by (auto simp: collectStep_def Let_def pushHead_map_of targets_def split: option.splits)

lemma collect_fold:
  "distinct (map fst hc) \<Longrightarrow>
   distinct (map fst (fold (collectStep ms) is hc))
   \<and> map_of (fold (collectStep ms) is hc) c =
       (case map_of hc c of
          None \<Rightarrow> if filter (\<lambda>i. targets ms i c) is = [] then None
                   else Some (filter (\<lambda>i. targets ms i c) is)
        | Some l \<Rightarrow> Some (l @ filter (\<lambda>i. targets ms i c) is))"
proof (induction "is" arbitrary: hc)
  case Nil
  then show ?case by (simp split: option.splits)
next
  case (Cons i "is")
  from Cons.prems have d: "distinct (map fst (collectStep ms i hc))"
    by (rule collectStep_distinct)
  show ?case
    using Cons.IH [OF d] by (simp add: collectStep_map_of split: option.splits)
qed

lemma collectHeadCollisions_entries:
  "(c, g) \<in> set (collectHeadCollisions ms) \<longleftrightarrow> g = contenders ms c \<and> g \<noteq> []"
proof -
  have d: "distinct (map fst (collectHeadCollisions ms))"
    and m: "map_of (collectHeadCollisions ms) c =
              (if contenders ms c = [] then None else Some (contenders ms c))"
    using collect_fold [of "[]" ms "[0 ..< length ms]" c]
    by (simp_all add: collectHeadCollisions_def contenders_def targets_def)
  have "(c, g) \<in> set (collectHeadCollisions ms) \<longleftrightarrow> map_of (collectHeadCollisions ms) c = Some g"
    using d by simp
  then show ?thesis using m by auto
qed

lemma contenders_bound: "set (contenders ms c) \<subseteq> {..< length ms}"
  by (auto simp: contenders_def)

text \<open>What the head-to-head phase does to each move.\<close>

lemma resolveHeadCollisions_nth:
  assumes "j < length ms"
  shows "resolveHeadCollisions sl ms ! j =
     (if \<exists>c. j \<in> set (losers sl ms (contenders ms c)) then markHead (ms ! j) else ms ! j)"
proof -
  have b: "\<And>e. e \<in> set (collectHeadCollisions ms) \<Longrightarrow> set (snd e) \<subseteq> {..< length ms}"
    using collectHeadCollisions_entries contenders_bound by (metis prod.collapse)
  have e: "(\<exists>e \<in> set (collectHeadCollisions ms). j \<in> set (losers sl ms (snd e)))
           \<longleftrightarrow> (\<exists>c. j \<in> set (losers sl ms (contenders ms c)))"
  proof
    assume "\<exists>e \<in> set (collectHeadCollisions ms). j \<in> set (losers sl ms (snd e))"
    then obtain c g where "(c, g) \<in> set (collectHeadCollisions ms)" "j \<in> set (losers sl ms g)"
      by (metis prod.collapse)
    then show "\<exists>c. j \<in> set (losers sl ms (contenders ms c))"
      using collectHeadCollisions_entries by auto
  next
    assume "\<exists>c. j \<in> set (losers sl ms (contenders ms c))"
    then obtain c where c: "j \<in> set (losers sl ms (contenders ms c))" by auto
    then have "contenders ms c \<noteq> []" by (auto simp: losers_def)
    then have "(c, contenders ms c) \<in> set (collectHeadCollisions ms)"
      by (simp add: collectHeadCollisions_entries)
    with c show "\<exists>e \<in> set (collectHeadCollisions ms). j \<in> set (losers sl ms (snd e))"
      by force
  qed
  show ?thesis
    unfolding resolveHeadCollisions_def
    using fold_resolve_nth [of ms ms "collectHeadCollisions ms" sl, OF refl sameMove_refl b] assms e
    by simp
qed

lemma resolveHeadCollisions_length: "length (resolveHeadCollisions sl ms) = length ms"
proof -
  have b: "\<And>e. e \<in> set (collectHeadCollisions ms) \<Longrightarrow> set (snd e) \<subseteq> {..< length ms}"
    using collectHeadCollisions_entries contenders_bound by (metis prod.collapse)
  show ?thesis
    unfolding resolveHeadCollisions_def
    using fold_resolve_nth [of ms ms "collectHeadCollisions ms" sl, OF refl sameMove_refl b]
    by simp
qed

lemma filter_single:
  "distinct vs \<Longrightarrow> w \<in> set vs \<Longrightarrow> (\<And>j. j \<in> set vs \<Longrightarrow> P j \<longleftrightarrow> j = w) \<Longrightarrow> filter P vs = [w]"
proof (induction vs)
  case Nil
  then show ?case by simp
next
  case (Cons a vs)
  show ?case
  proof (cases "a = w")
    case True
    with Cons.prems have "\<And>j. j \<in> set vs \<Longrightarrow> \<not> P j" by auto
    then have "filter P vs = []" by (simp add: filter_empty_conv)
    with True Cons.prems show ?thesis by simp
  next
    case False
    with Cons show ?thesis by auto
  qed
qed

lemma two_members_length:
  assumes "a \<in> set vs" "b \<in> set vs" "a \<noteq> b"
  shows "2 \<le> length vs"
proof -
  have "card {a, b} \<le> card (set vs)"
    using assms by (intro card_mono) auto
  also have "\<dots> \<le> length vs" by (rule card_length)
  finally show ?thesis using assms(3) by simp
qed

lemma contenders_distinct: "distinct (contenders ms c)"
  by (simp add: contenders_def)

lemma contestants_distinct: "distinct (contestants sl ms c)"
  by (simp add: contestants_def contenders_distinct)

lemma contenders_mem:
  "j \<in> set (contenders ms c) \<longleftrightarrow>
     j < length ms \<and> willMove (ms ! j) \<and> \<not> collided (ms ! j) \<and> nextHead (ms ! j) = Some c"
  by (auto simp: contenders_def)

lemma resolve_contender:
  assumes "j \<in> set (contenders ms c)"
  shows "resolveHeadCollisions sl ms ! j =
     (if j \<in> set (losers sl ms (contenders ms c)) then markHead (ms ! j) else ms ! j)"
proof -
  from assms have j: "j < length ms" and nh: "nextHead (ms ! j) = Some c"
    by (simp_all add: contenders_mem)
  have "(\<exists>c'. j \<in> set (losers sl ms (contenders ms c'))) \<longleftrightarrow> j \<in> set (losers sl ms (contenders ms c))"
  proof
    assume "\<exists>c'. j \<in> set (losers sl ms (contenders ms c'))"
    then obtain c' where c': "j \<in> set (losers sl ms (contenders ms c'))" by auto
    with losers_subset have "j \<in> set (contenders ms c')" by blast
    with nh have "c' = c" by (simp add: contenders_mem)
    with c' show "j \<in> set (losers sl ms (contenders ms c))" by simp
  qed auto
  with resolveHeadCollisions_nth [OF j, of sl] show ?thesis by simp
qed

lemma losers_contestants:
  "losers sl ms (contenders ms c) =
     (if length (contenders ms c) \<le> 1 \<or> length (contestants sl ms c) \<le> 1 then []
      else if length (filter (\<lambda>i. moveLength ms i = Max (set (map (moveLength ms) (contestants sl ms c))))
                       (contestants sl ms c)) = 1
      then filter (\<lambda>i. i \<noteq> filter (\<lambda>i. moveLength ms i = Max (set (map (moveLength ms) (contestants sl ms c))))
                       (contestants sl ms c) ! 0) (contestants sl ms c)
      else contestants sl ms c)"
  by (simp add: losers_def contestants_def Let_def)

lemma Max_lengths:
  assumes "w \<in> set vs" "\<And>j. j \<in> set vs \<Longrightarrow> f j \<le> (f w :: nat)"
  shows "Max (f ` set vs) = f w"
  using assms by (intro Max_eqI) auto

lemma resolveHeadCollisions_outcome:
  assumes "2 \<le> length (contenders ms c)"
  shows "(\<forall>w \<in> set (contestants sl ms c).
            (\<forall>j \<in> set (contestants sl ms c). j \<noteq> w \<longrightarrow> moveLength ms j < moveLength ms w) \<longrightarrow>
            \<not> collided (resolveHeadCollisions sl ms ! w)
            \<and> (\<forall>j \<in> set (contestants sl ms c). j \<noteq> w \<longrightarrow>
                  collided (resolveHeadCollisions sl ms ! j)
                  \<and> reason (resolveHeadCollisions sl ms ! j) = Some Head))
       \<and> ((\<exists>a \<in> set (contestants sl ms c). \<exists>b \<in> set (contestants sl ms c).
              a \<noteq> b \<and> moveLength ms a = moveLength ms b
              \<and> (\<forall>j \<in> set (contestants sl ms c). moveLength ms j \<le> moveLength ms a)) \<longrightarrow>
           (\<forall>j \<in> set (contestants sl ms c).
               collided (resolveHeadCollisions sl ms ! j)
               \<and> reason (resolveHeadCollisions sl ms ! j) = Some Head))
       \<and> (\<forall>j \<in> set (contenders ms c). j \<notin> set (contestants sl ms c) \<longrightarrow>
             resolveHeadCollisions sl ms ! j = ms ! j)"
proof -
  let ?I = "contestants sl ms c"
  let ?g = "contenders ms c"
  let ?r = "resolveHeadCollisions sl ms"
  have sub: "set ?I \<subseteq> set ?g" by (auto simp: contestants_def)
  have winner: "\<not> collided (?r ! w)"
    and others: "\<And>j. j \<in> set ?I \<Longrightarrow> j \<noteq> w \<Longrightarrow> collided (?r ! j) \<and> reason (?r ! j) = Some Head"
    if w: "w \<in> set ?I"
      and strict: "\<forall>j \<in> set ?I. j \<noteq> w \<longrightarrow> moveLength ms j < moveLength ms w" for w
  proof -
    have mx: "Max (moveLength ms ` set ?I) = moveLength ms w"
      using w strict by (intro Max_lengths) (auto simp: less_imp_le)
    have win: "filter (\<lambda>i. moveLength ms i = moveLength ms w) ?I = [w]"
      using w strict by (intro filter_single contestants_distinct) auto
    have los: "set (losers sl ms ?g) \<subseteq> set ?I - {w}"
      by (auto simp: losers_contestants mx win)
    have wg: "w \<in> set ?g" using w sub by auto
    then have "\<not> collided (ms ! w)" by (simp add: contenders_mem)
    with los show "\<not> collided (?r ! w)"
      by (auto simp: resolve_contender [OF wg])
    fix j assume j: "j \<in> set ?I" and jw: "j \<noteq> w"
    have "2 \<le> length ?I" using two_members_length [OF j w jw] .
    with assms have "losers sl ms ?g = filter (\<lambda>i. i \<noteq> w) ?I"
      by (simp add: losers_contestants mx win)
    with j jw have "j \<in> set (losers sl ms ?g)" by simp
    moreover have "j \<in> set ?g" using j sub by auto
    ultimately show "collided (?r ! j) \<and> reason (?r ! j) = Some Head"
      by (simp add: resolve_contender markHead_def)
  qed
  have tie: "collided (?r ! j) \<and> reason (?r ! j) = Some Head"
    if j: "j \<in> set ?I"
      and ex: "\<exists>a \<in> set ?I. \<exists>b \<in> set ?I. a \<noteq> b \<and> moveLength ms a = moveLength ms b
              \<and> (\<forall>j \<in> set ?I. moveLength ms j \<le> moveLength ms a)" for j
  proof -
    from ex obtain a b where a: "a \<in> set ?I" and b: "b \<in> set ?I" and ab: "a \<noteq> b"
      and eq: "moveLength ms a = moveLength ms b"
      and top: "\<forall>j \<in> set ?I. moveLength ms j \<le> moveLength ms a" by auto
    have mx: "Max (moveLength ms ` set ?I) = moveLength ms a"
      using a top by (intro Max_lengths) auto
    have "2 \<le> length (filter (\<lambda>i. moveLength ms i = moveLength ms a) ?I)"
      using a b ab eq by (intro two_members_length [of a _ b]) auto
    moreover have "2 \<le> length ?I" using two_members_length [OF a b ab] .
    ultimately have "losers sl ms ?g = ?I"
      using assms by (simp add: losers_contestants mx)
    moreover have "j \<in> set ?g" using j sub by auto
    ultimately show ?thesis
      using j by (simp add: resolve_contender markHead_def)
  qed
  have safe: "?r ! j = ms ! j" if j: "j \<in> set ?g" and n: "j \<notin> set ?I" for j
  proof -
    have "set (losers sl ms ?g) \<subseteq> set ?I"
      by (auto simp: losers_contestants)
    with n show ?thesis
      by (auto simp: resolve_contender [OF j])
  qed
  show ?thesis
    using winner others tie safe by blast
qed

lemma proposeMove_total: "segments sn \<noteq> [] \<Longrightarrow> \<exists>m. proposeMove state sn = Some m"
  by (cases "segments sn") (auto simp: proposeMove_def Let_def split: prod.splits)

lemma proposeMove_nextHead:
  "proposeMove state sn = Some m \<Longrightarrow> alive sn \<Longrightarrow> willMove m \<Longrightarrow> \<exists>nh. nextHead m = Some nh"
  by (auto simp: proposeMove_def Let_def split: if_splits prod.splits list.splits)

lemma computeAiTurn_total: "segments sn \<noteq> [] \<Longrightarrow> \<exists>r. computeAiTurn sn state occ rng = Some r"
  by (cases "segments sn") (auto simp: computeAiTurn_def Let_def split: prod.splits)

lemma aiBackfill_total:
  "(\<And>sn. sn \<in> set sns \<Longrightarrow> segments sn \<noteq> []) \<Longrightarrow> \<exists>r. aiBackfill state occ sns acc = Some r"
proof (induction sns arbitrary: acc)
  case Nil
  then show ?case by simp
next
  case (Cons sn sns)
  obtain cm rng where acc: "acc = (cm, rng)" by (cases acc)
  from Cons.prems have "segments sn \<noteq> []" by simp
  then obtain r where "computeAiTurn sn state occ rng = Some r"
    using computeAiTurn_total by blast
  then have "\<exists>acc'. aiBackfillStep state occ sn acc = Some acc'"
    by (cases r) (simp add: aiBackfillStep_def acc)
  then obtain acc' where "aiBackfillStep state occ sn acc = Some acc'" by blast
  with Cons show ?case by auto
qed

lemma prepareTick_total:
  "(\<And>sn. sn \<in> set (snakes state) \<Longrightarrow> segments sn \<noteq> []) \<Longrightarrow>
   \<exists>sns rng. prepareTick state commands = Some (sns, rng)"
  using aiBackfill_total [of "snakes state" state "buildOccupancy (snakes state)"
      "(buildCommandMap commands, createRng (intNum (rngState state)))"]
  by (auto simp: prepareTick_def Let_def)

lemma prepareTick_snakes:
  "prepareTick state commands = Some (sns, rng) \<Longrightarrow>
   \<exists>cm. sns = map (prepareSnake (tick state) cm) (snakes state)"
  by (auto simp: prepareTick_def Let_def split: option.splits)

lemma checkedMoves_unfold:
  "checkedMoves state sns = Some ms \<Longrightarrow>
   \<exists>pms. mapM (proposeMove state) sns = Some pms
     \<and> mapM (checkMove state (buildOccupancy sns) (buildSafeLookup (tick state) sns)
               (buildMoveBySnake pms) (buildSnakeLookup sns)) pms = Some ms"
  by (auto simp: checkedMoves_def Let_def split: option.splits)

lemma checkedMoves_same:
  assumes "checkedMoves state sns = Some ms"
  shows "length ms = length sns"
    and "i < length sns \<Longrightarrow> \<exists>pm. proposeMove state (sns ! i) = Some pm \<and> sameMove pm (ms ! i)"
proof -
  from checkedMoves_unfold [OF assms] obtain pms where
    p: "mapM (proposeMove state) sns = Some pms" and
    c: "mapM (checkMove state (buildOccupancy sns) (buildSafeLookup (tick state) sns)
               (buildMoveBySnake pms) (buildSnakeLookup sns)) pms = Some ms" by blast
  show l: "length ms = length sns"
    using mapM_length [OF p] mapM_length [OF c] by simp
  assume i: "i < length sns"
  then have "i < length pms" using mapM_length [OF p] by simp
  from mapM_nth [OF c this] mapM_nth [OF p i]
  show "\<exists>pm. proposeMove state (sns ! i) = Some pm \<and> sameMove pm (ms ! i)"
    by (auto dest: checkMove_same)
qed

lemma resolveHeadCollisions_same:
  "j < length ms \<Longrightarrow> sameMove (ms ! j) (resolveHeadCollisions sl ms ! j)"
  by (simp add: resolveHeadCollisions_nth sameMove_refl sameMove_markHead)

lemma resolveHeadCollisions_collided:
  "j < length ms \<Longrightarrow> collided (ms ! j) \<Longrightarrow> resolveHeadCollisions sl ms ! j = ms ! j"
proof -
  assume j: "j < length ms" and c: "collided (ms ! j)"
  have "\<not> (\<exists>c. j \<in> set (losers sl ms (contenders ms c)))"
  proof
    assume "\<exists>c. j \<in> set (losers sl ms (contenders ms c))"
    then obtain c' where "j \<in> set (losers sl ms (contenders ms c'))" by blast
    with losers_subset have "j \<in> set (contenders ms c')" by blast
    with c show False by (simp add: contenders_mem)
  qed
  with j show ?thesis by (simp add: resolveHeadCollisions_nth)
qed

lemma finalMoves_same:
  assumes "finalMoves state sns = Some fm"
  shows "length fm = length sns"
    and "i < length sns \<Longrightarrow> \<exists>pm. proposeMove state (sns ! i) = Some pm \<and> sameMove pm (fm ! i)"
proof -
  from assms obtain ms where ms: "checkedMoves state sns = Some ms"
    and fm: "fm = resolveHeadCollisions (buildSafeLookup (tick state) sns) ms"
    by (auto simp: finalMoves_def split: option.splits)
  show "length fm = length sns"
    by (simp add: fm resolveHeadCollisions_length checkedMoves_same(1) [OF ms])
  assume i: "i < length sns"
  then have "i < length ms" by (simp add: checkedMoves_same(1) [OF ms])
  from resolveHeadCollisions_same [OF this] checkedMoves_same(2) [OF ms i]
  show "\<exists>pm. proposeMove state (sns ! i) = Some pm \<and> sameMove pm (fm ! i)"
    unfolding fm by (blast intro: sameMove_trans)
qed

lemma finalMoves_snake:
  "finalMoves state sns = Some fm \<Longrightarrow> i < length sns \<Longrightarrow> snake (fm ! i) = sns ! i"
  using finalMoves_same(2) [of state sns fm i]
  by (auto simp: sameMove_def dest: proposeMove_snake)

lemma finalMoves_total:
  assumes "\<And>sn. sn \<in> set sns \<Longrightarrow> segments sn \<noteq> []"
  shows "\<exists>fm. finalMoves state sns = Some fm"
proof -
  obtain pms where p: "mapM (proposeMove state) sns = Some pms"
    using mapM_total [of sns "proposeMove state"] proposeMove_total assms
    by (metis option.discI)
  have "\<exists>m'. checkMove state (buildOccupancy sns) (buildSafeLookup (tick state) sns)
               (buildMoveBySnake pms) (buildSnakeLookup sns) pm = Some m'"
    if "pm \<in> set pms" for pm
  proof (rule checkMove_total)
    show "\<And>i os. buildSnakeLookup sns i = Some os \<Longrightarrow> segments os \<noteq> []"
      using assms buildSnakeLookup_mem by blast
    from that obtain i where i: "i < length pms" and pm: "pm = pms ! i"
      by (auto simp: in_set_conv_nth)
    then have "i < length sns" using mapM_length [OF p] by simp
    from mapM_nth [OF p this] have "snake pm = sns ! i"
      by (simp add: pm proposeMove_snake)
    with assms \<open>i < length sns\<close> show "segments (snake pm) \<noteq> []" by simp
  qed
  then obtain ms where "mapM (checkMove state (buildOccupancy sns) (buildSafeLookup (tick state) sns)
               (buildMoveBySnake pms) (buildSnakeLookup sns)) pms = Some ms"
    using mapM_total [of pms] by (metis option.discI)
  with p show ?thesis
    by (simp add: finalMoves_def checkedMoves_def Let_def)
qed

lemma applyMove_total:
  "(alive (snake m) \<Longrightarrow> willMove m \<Longrightarrow> nextHead m \<noteq> None) \<Longrightarrow> \<exists>sn'. applyMove t m = Some sn'"
  by (auto simp: applyMove_def Let_def split: option.splits prod.splits)

lemma advanceState_total:
  assumes "\<And>sn. sn \<in> set (snakes state) \<Longrightarrow> segments sn \<noteq> []"
  shows "\<exists>s'. advanceState state commands = Some s'"
proof (cases "status state = Running")
  case False
  then show ?thesis by (simp add: advanceState_def)
next
  case True
  obtain sns rng where pt: "prepareTick state commands = Some (sns, rng)"
    using prepareTick_total [OF assms] by blast
  from prepareTick_snakes [OF pt] obtain cm where
    sns: "sns = map (prepareSnake (tick state) cm) (snakes state)" by blast
  have seg: "\<And>sn. sn \<in> set sns \<Longrightarrow> segments sn \<noteq> []"
    using assms by (auto simp: sns prepareSnake_fields)
  obtain fm where fm: "finalMoves state sns = Some fm"
    using finalMoves_total [OF seg] by blast
  have "\<exists>sn'. applyMove (tick state) m = Some sn'" if "m \<in> set fm" for m
  proof (rule applyMove_total)
    assume a: "alive (snake m)" and w: "willMove m"
    from that obtain i where i: "i < length fm" and m: "m = fm ! i"
      by (auto simp: in_set_conv_nth)
    then have i': "i < length sns" by (simp add: finalMoves_same(1) [OF fm])
    from finalMoves_same(2) [OF fm i'] obtain pm where
      pm: "proposeMove state (sns ! i) = Some pm" and sm: "sameMove pm m"
      unfolding m by blast
    have "snake pm = sns ! i" using pm by (rule proposeMove_snake)
    with sm a w pm have "\<exists>nh. nextHead pm = Some nh"
      by (intro proposeMove_nextHead [of state "sns ! i"]) (simp_all add: sameMove_def)
    with sm show "nextHead m \<noteq> None" by (auto simp: sameMove_def)
  qed
  then obtain ns where "mapM (applyMove (tick state)) fm = Some ns"
    using mapM_total [of fm] by (metis option.discI)
  with True pt fm show ?thesis by (simp add: advanceState_def)
qed

lemma count_le_distinct: "(\<And>a. count (mset ys) a \<le> 1) \<Longrightarrow> distinct ys"
proof (induction ys)
  case Nil
  then show ?case by simp
next
  case (Cons y ys)
  have "count (mset ys) a \<le> 1" for a
  proof -
    have "count (mset ys) a \<le> count (mset (y # ys)) a" by simp
    with Cons.prems [of a] show ?thesis by linarith
  qed
  then have "distinct ys" by (rule Cons.IH)
  moreover have "count (mset ys) y = 0"
    using Cons.prems [of y] by simp
  then have "y \<notin> set ys" by (simp add: count_eq_zero_iff)
  ultimately show ?case by simp
qed

lemma distinct_submset: "mset ys \<subseteq># mset xs \<Longrightarrow> distinct xs \<Longrightarrow> distinct ys"
proof (rule count_le_distinct)
  fix a
  assume s: "mset ys \<subseteq># mset xs" and d: "distinct xs"
  have "count (mset xs) a \<le> 1"
    using d by (simp add: distinct_count_atmost_1)
  with mset_subset_eq_count [OF s, of a] show "count (mset ys) a \<le> 1" by simp
qed

lemma applyMove_id:
  "applyMove t m = Some n \<Longrightarrow>
   snake_id n = snake_id (snake m) \<and> controller n = controller (snake m) \<and> speed n = speed (snake m)"
  by (auto simp: applyMove_def Let_def split: if_splits option.splits prod.splits)

lemma applyMove_alive:
  "applyMove t m = Some n \<Longrightarrow> alive n = (alive (snake m) \<and> (willMove m \<longrightarrow> \<not> collided m))"
  by (auto simp: applyMove_def Let_def split: if_splits option.splits prod.splits)

lemma applyMove_still:
  "applyMove t m = Some n \<Longrightarrow> alive (snake m) \<Longrightarrow> \<not> willMove m \<Longrightarrow>
   n = (snake m)\<lparr>direction := move_direction m, pendingTurn := move_pendingTurn m,
                  accumulator := newAccumulator m\<rparr>"
  by (auto simp: applyMove_def Let_def split: if_splits option.splits prod.splits)

lemma applyMove_moved:
  "applyMove t m = Some n \<Longrightarrow> alive (snake m) \<Longrightarrow> willMove m \<Longrightarrow> \<not> collided m \<Longrightarrow>
   \<exists>nh. nextHead m = Some nh \<and>
     n = (snake m)\<lparr>segments := (if pendingGrowth (snake m) + move_growth m > 0
                                  then nh # segments (snake m)
                                  else butlast (nh # segments (snake m))),
                    direction := move_direction m,
                    pendingTurn := move_pendingTurn m,
                    accumulator := newAccumulator m,
                    pendingGrowth := (if pendingGrowth (snake m) + move_growth m > 0
                                      then pendingGrowth (snake m) + move_growth m - 1
                                      else pendingGrowth (snake m) + move_growth m),
                    effects := (case effectTemplate m of
                                  Some tpl \<Rightarrow>
                                    effects (snake m) @ [\<lparr>eff_type = tpl_type tpl,
                                                          multiplier = tpl_multiplier tpl,
                                                          expiresAtTick = t + duration tpl\<rparr>]
                                | None \<Rightarrow> effects (snake m))\<rparr>"
  by (auto simp: applyMove_def Let_def split: if_splits option.splits prod.splits)

lemma tryLayouts_Some:
  "tryLayouts state nt occ layouts ticket start idxs = Some c \<Longrightarrow>
   \<exists>h d. c = buildSnake (snakeId ticket) h d (ticket_controller ticket) (nt + SAFE_RESPAWN_TICKS)"
  by (induction idxs) (auto simp: Let_def split: if_splits)

lemma buildSnake_fields:
  "snake_id (buildSnake i h d c su) = i \<and> alive (buildSnake i h d c su)
   \<and> segments (buildSnake i h d c su) \<noteq> [] \<and> speed (buildSnake i h d c su) = 1
   \<and> accumulator (buildSnake i h d c su) = 0 \<and> effects (buildSnake i h d c su) = []
   \<and> safeUntilTick (buildSnake i h d c su) = su \<and> controller (buildSnake i h d c su) = c
   \<and> pendingGrowth (buildSnake i h d c su) = 0 \<and> direction (buildSnake i h d c su) = d
   \<and> length (segments (buildSnake i h d c su)) = 3"
  by (simp add: buildSnake_def Let_def)

lemma buildSnake_ok: "snakeOk (buildSnake i h d c su)"
  by (simp add: snakeOk_def buildSnake_fields)

lemma trySpawn_Some:
  "trySpawn state nt occ layouts ticket rng = (Some c, rng') \<Longrightarrow>
   \<exists>h d. c = buildSnake (snakeId ticket) h d (ticket_controller ticket) (nt + SAFE_RESPAWN_TICKS)"
  using tryLayouts_Some [of state nt occ layouts ticket]
  by (auto simp: trySpawn_def Let_def split: if_splits prod.splits)

lemma processTicket_respawned:
  assumes "sp \<in> set (respawnedSnakes (processTicket state nt layouts ticket acc))"
  shows "sp \<in> set (respawnedSnakes acc)
     \<or> (ticksRemaining ticket \<le> 1 \<and> ticket_controller ticket = Ai
         \<and> (\<exists>h d. sp = buildSnake (snakeId ticket) h d Ai (nt + SAFE_RESPAWN_TICKS)))"
proof -
  obtain spawned rng' where ts: "trySpawn state nt (occupied acc) layouts ticket (acc_rng acc) = (spawned, rng')"
    by (cases "trySpawn state nt (occupied acc) layouts ticket (acc_rng acc)")
  have "\<exists>h d. c = buildSnake (snakeId ticket) h d (ticket_controller ticket) (nt + SAFE_RESPAWN_TICKS)"
    if "spawned = Some c" for c
    using ts that trySpawn_Some by blast
  with assms ts show ?thesis
    by (auto simp: processTicket_def Let_def split: if_splits option.splits)
qed

lemma fold_processTicket_respawned:
  "sp \<in> set (respawnedSnakes (fold (processTicket state nt layouts) ts acc)) \<Longrightarrow>
   sp \<in> set (respawnedSnakes acc)
     \<or> (\<exists>ticket \<in> set ts. ticksRemaining ticket \<le> 1 \<and> ticket_controller ticket = Ai
         \<and> (\<exists>h d. sp = buildSnake (snakeId ticket) h d Ai (nt + SAFE_RESPAWN_TICKS)))"
proof (induction ts arbitrary: acc)
  case Nil
  then show ?case by simp
next
  case (Cons a ts)
  from Cons.IH [of "processTicket state nt layouts a acc"] Cons.prems
  show ?case
    by (auto dest: processTicket_respawned)
qed



lemma processTicket_ids:
  "accIds (processTicket state nt layouts ticket acc) \<subseteq># accIds acc + {#snakeId ticket#}"
proof -
  obtain spawned rng' where ts: "trySpawn state nt (occupied acc) layouts ticket (acc_rng acc) = (spawned, rng')"
    by (cases "trySpawn state nt (occupied acc) layouts ticket (acc_rng acc)")
  have "snake_id c = snakeId ticket" if "spawned = Some c" for c
    using ts that trySpawn_Some [of state nt "occupied acc" layouts ticket "acc_rng acc" c rng']
    by (auto simp: buildSnake_fields)
  with ts show ?thesis
    by (auto simp: processTicket_def Let_def accIds_def split: if_splits option.splits)
qed

lemma fold_processTicket_ids:
  "accIds (fold (processTicket state nt layouts) ts acc) \<subseteq># accIds acc + mset (map snakeId ts)"
proof (induction ts arbitrary: acc)
  case Nil
  then show ?case by simp
next
  case (Cons a ts)
  have "accIds (fold (processTicket state nt layouts) ts (processTicket state nt layouts a acc))
        \<subseteq># accIds (processTicket state nt layouts a acc) + mset (map snakeId ts)"
    by (rule Cons.IH)
  also have "\<dots> \<subseteq># (accIds acc + {#snakeId a#}) + mset (map snakeId ts)"
    using processTicket_ids [of state nt layouts a acc] by (simp add: subset_mset.add_right_mono)
  finally show ?case by (simp add: ac_simps)
qed

lemma foodAt_mem: "foodAt state nh = Some f \<Longrightarrow> f \<in> set (foods state) \<and> position f = nh"
  by (auto simp: foodAt_def find_Some_iff)

lemma proposeMove_ok_eq:
  assumes "snakeOk sn"
  shows "proposeMove state sn =
     Some \<lparr>snake = sn, willMove = True, move_direction = fst (maybeTurn sn),
           nextHead = Some (nextPosition (hd (segments sn)) (fst (maybeTurn sn))),
           move_growth = (case foodAt state (nextPosition (hd (segments sn)) (fst (maybeTurn sn))) of
                            Some f \<Rightarrow> growth f | None \<Rightarrow> 0),
           ateFoodId = (case foodAt state (nextPosition (hd (segments sn)) (fst (maybeTurn sn))) of
                          Some f \<Rightarrow> Some (food_id f) | None \<Rightarrow> None),
           effectTemplate = (case foodAt state (nextPosition (hd (segments sn)) (fst (maybeTurn sn))) of
                               Some f \<Rightarrow> effect f | None \<Rightarrow> None),
           newAccumulator = accumulator sn + getSpeedMultiplier (effects sn) - 1,
           move_pendingTurn = snd (maybeTurn sn),
           collided = False, reason = None,
           tailKey = (if pendingGrowth sn
                         + (case foodAt state (nextPosition (hd (segments sn)) (fst (maybeTurn sn))) of
                              Some f \<Rightarrow> growth f | None \<Rightarrow> 0) > 0
                      then None else Some (last (segments sn)))\<rparr>"
proof -
  from assms have "1 \<le> getSpeedMultiplier (effects sn)"
    by (simp add: snakeOk_def getSpeedMultiplier_ge)
  with assms have wm: "accumulator sn + speed sn * getSpeedMultiplier (effects sn) \<ge> 1"
    by (simp add: snakeOk_def)
  from assms obtain h rest where seg: "segments sn = h # rest"
    by (cases "segments sn") (auto simp: snakeOk_def)
  from assms have sp: "speed sn = 1" and al: "alive sn" by (simp_all add: snakeOk_def)
  obtain d pt where mt: "maybeTurn sn = (d, pt)" by (cases "maybeTurn sn")
  show ?thesis
    using wm al
    by (simp add: proposeMove_def Let_def mt seg sp foodAt_def nextPosition_def)
qed

lemma finalMoves_ok:
  assumes "finalMoves state sns = Some fm" and "i < length sns" and "snakeOk (sns ! i)"
  shows "snake (fm ! i) = sns ! i" and "willMove (fm ! i)"
    and "move_direction (fm ! i) = fst (maybeTurn (sns ! i))"
    and "nextHead (fm ! i) = Some (nextPosition (hd (segments (sns ! i))) (fst (maybeTurn (sns ! i))))"
    and "move_growth (fm ! i) =
           (case foodAt state (nextPosition (hd (segments (sns ! i))) (fst (maybeTurn (sns ! i)))) of
              Some f \<Rightarrow> growth f | None \<Rightarrow> 0)"
    and "effectTemplate (fm ! i) =
           (case foodAt state (nextPosition (hd (segments (sns ! i))) (fst (maybeTurn (sns ! i)))) of
              Some f \<Rightarrow> effect f | None \<Rightarrow> None)"
    and "newAccumulator (fm ! i) = accumulator (sns ! i) + getSpeedMultiplier (effects (sns ! i)) - 1"
    and "move_pendingTurn (fm ! i) = snd (maybeTurn (sns ! i))"
proof -
  from finalMoves_same(2) [OF assms(1,2)] obtain pm where
    pm: "proposeMove state (sns ! i) = Some pm" and sm: "sameMove pm (fm ! i)" by blast
  from pm proposeMove_ok_eq [OF assms(3), of state]
  have e: "pm = \<lparr>snake = sns ! i, willMove = True, move_direction = fst (maybeTurn (sns ! i)),
           nextHead = Some (nextPosition (hd (segments (sns ! i))) (fst (maybeTurn (sns ! i)))),
           move_growth = (case foodAt state (nextPosition (hd (segments (sns ! i))) (fst (maybeTurn (sns ! i)))) of
                            Some f \<Rightarrow> growth f | None \<Rightarrow> 0),
           ateFoodId = (case foodAt state (nextPosition (hd (segments (sns ! i))) (fst (maybeTurn (sns ! i)))) of
                          Some f \<Rightarrow> Some (food_id f) | None \<Rightarrow> None),
           effectTemplate = (case foodAt state (nextPosition (hd (segments (sns ! i))) (fst (maybeTurn (sns ! i)))) of
                               Some f \<Rightarrow> effect f | None \<Rightarrow> None),
           newAccumulator = accumulator (sns ! i) + getSpeedMultiplier (effects (sns ! i)) - 1,
           move_pendingTurn = snd (maybeTurn (sns ! i)),
           collided = False, reason = None,
           tailKey = (if pendingGrowth (sns ! i)
                         + (case foodAt state (nextPosition (hd (segments (sns ! i))) (fst (maybeTurn (sns ! i)))) of
                              Some f \<Rightarrow> growth f | None \<Rightarrow> 0) > 0
                      then None else Some (last (segments (sns ! i))))\<rparr>"
    by simp
  from sm show "snake (fm ! i) = sns ! i" by (simp add: sameMove_def e)
  from sm show "willMove (fm ! i)" by (simp add: sameMove_def e)
  from sm show "move_direction (fm ! i) = fst (maybeTurn (sns ! i))" by (simp add: sameMove_def e)
  from sm show "nextHead (fm ! i) = Some (nextPosition (hd (segments (sns ! i))) (fst (maybeTurn (sns ! i))))"
    by (simp add: sameMove_def e)
  from sm show "move_growth (fm ! i) =
           (case foodAt state (nextPosition (hd (segments (sns ! i))) (fst (maybeTurn (sns ! i)))) of
              Some f \<Rightarrow> growth f | None \<Rightarrow> 0)" by (simp add: sameMove_def e)
  from sm show "effectTemplate (fm ! i) =
           (case foodAt state (nextPosition (hd (segments (sns ! i))) (fst (maybeTurn (sns ! i)))) of
              Some f \<Rightarrow> effect f | None \<Rightarrow> None)" by (simp add: sameMove_def e)
  from sm show "newAccumulator (fm ! i) = accumulator (sns ! i) + getSpeedMultiplier (effects (sns ! i)) - 1"
    by (simp add: sameMove_def e)
  from sm show "move_pendingTurn (fm ! i) = snd (maybeTurn (sns ! i))" by (simp add: sameMove_def e)
qed

lemma replenishFood_fields:
  "tick (replenishFood state rng) = tick state"
  "respawnQueue (replenishFood state rng) = respawnQueue state"
  "status (replenishFood state rng) = status state"
  by (simp_all add: replenishFood_def Let_def split: prod.splits)

lemma finishTick_fields:
  "snakes (finishTick state rng fm ns) = filter alive ns @ respawnedSnakes (respawnAcc state rng fm ns)"
  "respawnQueue (finishTick state rng fm ns) = updatedQueue (respawnAcc state rng fm ns)"
  "tick (finishTick state rng fm ns) = tick state + 1"
  "config (finishTick state rng fm ns) = config state"
  "foods (finishTick state rng fm ns) =
     foods (replenishFood
              (state\<lparr>snakes := filter alive ns @ respawnedSnakes (respawnAcc state rng fm ns),
                     foods := uneatenFoods state fm, tick := tick state + 1,
                     rngState := rng_state (acc_rng (respawnAcc state rng fm ns)),
                     respawnQueue := updatedQueue (respawnAcc state rng fm ns)\<rparr>)
              (acc_rng (respawnAcc state rng fm ns)))"
  by (simp_all add: finishTick_def Let_def respawnAcc_def uneatenFoods_def
        replenishFood_fields replenishFood_config replenishFood_snakes)

lemma advanceState_running:
  assumes "status state = Running" and "advanceState state commands = Some s'"
  shows "\<exists>sns rng fm ns. prepareTick state commands = Some (sns, rng)
          \<and> finalMoves state sns = Some fm
          \<and> mapM (applyMove (tick state)) fm = Some ns
          \<and> s' = finishTick state rng fm ns"
  using assms by (auto simp: advanceState_def split: option.splits)

lemma pickFrom_mem: "pickFrom v ds \<in> set ds \<union> {last foodDefinitions}"
  by (induction ds arbitrary: v) (auto simp: Let_def)

lemma pickFoodDefinition_mem: "fst (pickFoodDefinition rng) \<in> set foodDefinitions"
proof -
  have l: "last foodDefinitions \<in> set foodDefinitions"
    by (simp add: foodDefinitions_def)
  obtain r rng' where n: "rng_next rng = (r, rng')" by (cases "rng_next rng")
  from pickFrom_mem [of "r * totalFoodWeight" foodDefinitions] l
  have "pickFrom (r * totalFoodWeight) foodDefinitions \<in> set foodDefinitions" by auto
  then show ?thesis
    by (simp add: pickFoodDefinition_def Let_def n)
qed

lemma placeFood_Suc:
  "rng_next rng = (r1, rng1) \<Longrightarrow> rng_next rng1 = (r2, rng2) \<Longrightarrow> pickFoodDefinition rng2 = (d, rng3) \<Longrightarrow>
   placeFood (Suc n) state occ idx rng =
     (if \<lparr>vx = \<lfloor>r1 * of_int (cols (config state))\<rfloor>, vy = \<lfloor>r2 * of_int (rows (config state))\<rfloor>\<rparr> \<in> occ
      then placeFood n state occ idx rng2
      else (Some \<lparr>food_id = ''food-'' @ string_of_int (tick state) @ ''-''
                                   @ string_of_nat idx @ ''-'' @ kind_name (def_kind d),
                          position = \<lparr>vx = \<lfloor>r1 * of_int (cols (config state))\<rfloor>,
                                      vy = \<lfloor>r2 * of_int (rows (config state))\<rfloor>\<rparr>,
                          kind = def_kind d, growth = def_growth d, effect = def_effect d\<rparr>, rng3))"
  by (simp add: Let_def)

lemma definition_foodOk:
  assumes "d \<in> set foodDefinitions"
  shows "foodOk \<lparr>food_id = i, position = p, kind = def_kind d, growth = def_growth d,
                  effect = def_effect d\<rparr>"
proof -
  from assms have "d = foodDefinitions ! 0 \<or> d = foodDefinitions ! 1 \<or> d = foodDefinitions ! 2"
    by (simp add: foodDefinitions_def)
  then show ?thesis
    by (auto simp: foodDefinitions_def foodOk_def)
qed

lemma placeFood_foodOk:
  "placeFood n state occ idx rng = (Some f, rng') \<Longrightarrow> foodOk f"
proof (induction n arbitrary: rng)
  case 0
  then show ?case by simp
next
  case (Suc n)
  obtain r1 rng1 where a: "rng_next rng = (r1, rng1)" by (cases "rng_next rng")
  obtain r2 rng2 where b: "rng_next rng1 = (r2, rng2)" by (cases "rng_next rng1")
  obtain d rng3 where c: "pickFoodDefinition rng2 = (d, rng3)" by (cases "pickFoodDefinition rng2")
  from pickFoodDefinition_mem [of rng2] c have d: "d \<in> set foodDefinitions" by simp
  let ?key = "\<lparr>vx = \<lfloor>r1 * of_int (cols (config state))\<rfloor>,
               vy = \<lfloor>r2 * of_int (rows (config state))\<rfloor>\<rparr>"
  show ?case
  proof (cases "?key \<in> occ")
    case True
    have "placeFood (Suc n) state occ idx rng = placeFood n state occ idx rng2"
      unfolding placeFood_Suc [OF a b c] using True by (rule if_P)
    from trans [OF this [symmetric] Suc.prems]
    show ?thesis by (rule Suc.IH)
  next
    case False
    have "placeFood (Suc n) state occ idx rng =
            (Some \<lparr>food_id = ''food-'' @ string_of_int (tick state) @ ''-''
                                   @ string_of_nat idx @ ''-'' @ kind_name (def_kind d),
                          position = ?key,
                          kind = def_kind d, growth = def_growth d, effect = def_effect d\<rparr>, rng3)"
      unfolding placeFood_Suc [OF a b c] using False by (rule if_not_P)
    from trans [OF this [symmetric] Suc.prems]
    have "f = \<lparr>food_id = ''food-'' @ string_of_int (tick state) @ ''-''
                                   @ string_of_nat idx @ ''-'' @ kind_name (def_kind d),
                          position = ?key,
                          kind = def_kind d, growth = def_growth d, effect = def_effect d\<rparr>"
      by (simp only: prod.inject option.inject)
    then show ?thesis using definition_foodOk [OF d] by (rule ssubst)
  qed
qed

lemma fillFoods_foodOk:
  "list_all foodOk fs \<Longrightarrow> list_all foodOk (fst (fillFoods state occ fs rng))"
proof (induction state occ fs rng rule: fillFoods.induct)
  case (1 state occ fs rng)
  show ?case
  proof (cases "length fs < MAX_FOOD")
    case False
    with "1.prems" show ?thesis by (simp add: fillFoods.simps [of state occ fs rng])
  next
    case True
    obtain r rng' where p: "placeFood (nat (cols (config state) * rows (config state))) state occ (length fs) rng = (r, rng')"
      by (cases "placeFood (nat (cols (config state) * rows (config state))) state occ (length fs) rng")
    show ?thesis
    proof (cases r)
      case None
      with True p "1.prems" show ?thesis by (simp add: fillFoods.simps [of state occ fs rng])
    next
      case (Some f)
      with p have "foodOk f" using placeFood_foodOk by blast
      with "1.prems" have "list_all foodOk (fs @ [f])" by simp
      with Some True p "1.IH" [of r rng' f] show ?thesis
        by (auto simp add: fillFoods.simps [of state occ fs rng])
    qed
  qed
qed

lemma replenishFood_foodOk:
  "list_all foodOk (foods state) \<Longrightarrow> list_all foodOk (foods (replenishFood state rng))"
  using fillFoods_foodOk [of "foods state" state "occupiedCells (snakes state) (foods state)" rng]
  by (auto simp: replenishFood_def Let_def split: prod.splits)

lemma uneatenFoods_sub: "set (uneatenFoods state fm) \<subseteq> set (foods state)"
  and uneatenFoods_length: "length (uneatenFoods state fm) \<le> length (foods state)"
  by (auto simp: uneatenFoods_def)

lemma finishTick_foods:
  assumes "list_all foodOk (foods state)" and "length (foods state) \<le> MAX_FOOD"
  shows "list_all foodOk (foods (finishTick state rng fm ns))"
    and "length (foods (finishTick state rng fm ns)) \<le> MAX_FOOD"
proof -
  let ?st = "state\<lparr>snakes := filter alive ns @ respawnedSnakes (respawnAcc state rng fm ns),
                     foods := uneatenFoods state fm, tick := tick state + 1,
                     rngState := rng_state (acc_rng (respawnAcc state rng fm ns)),
                     respawnQueue := updatedQueue (respawnAcc state rng fm ns)\<rparr>"
  have "list_all foodOk (foods ?st)"
    using assms(1) uneatenFoods_sub [of state fm] by (auto simp: list_all_iff)
  then show "list_all foodOk (foods (finishTick state rng fm ns))"
    unfolding finishTick_fields by (rule replenishFood_foodOk)
  have "length (foods ?st) \<le> MAX_FOOD"
    using assms(2) uneatenFoods_length [of state fm] by simp
  with replenishFood_length [of ?st "acc_rng (respawnAcc state rng fm ns)"]
  show "length (foods (finishTick state rng fm ns)) \<le> MAX_FOOD"
    unfolding finishTick_fields by simp
qed

lemma survivor_ok:
  assumes fm: "finalMoves state sns = Some fm" and i: "i < length sns"
    and ok: "snakeOk (sns ! i)" and am: "applyMove (tick state) (fm ! i) = Some n"
    and al: "alive n" and fo: "list_all foodOk (foods state)"
  shows "snakeOk n"
proof -
  note f = finalMoves_ok [OF fm i ok]
  from applyMove_alive [OF am] al f(2) have nc: "\<not> collided (fm ! i)" by simp
  from ok have a: "alive (snake (fm ! i))" by (simp add: f(1) snakeOk_def)
  from applyMove_moved [OF am a f(2) nc] obtain nh where
    n: "n = (snake (fm ! i))\<lparr>segments := (if pendingGrowth (snake (fm ! i)) + move_growth (fm ! i) > 0
                                  then nh # segments (snake (fm ! i))
                                  else butlast (nh # segments (snake (fm ! i)))),
                    direction := move_direction (fm ! i),
                    pendingTurn := move_pendingTurn (fm ! i),
                    accumulator := newAccumulator (fm ! i),
                    pendingGrowth := (if pendingGrowth (snake (fm ! i)) + move_growth (fm ! i) > 0
                                      then pendingGrowth (snake (fm ! i)) + move_growth (fm ! i) - 1
                                      else pendingGrowth (snake (fm ! i)) + move_growth (fm ! i)),
                    effects := (case effectTemplate (fm ! i) of
                                  Some tpl \<Rightarrow>
                                    effects (snake (fm ! i)) @ [\<lparr>eff_type = tpl_type tpl,
                                                          multiplier = tpl_multiplier tpl,
                                                          expiresAtTick = tick state + duration tpl\<rparr>]
                                | None \<Rightarrow> effects (snake (fm ! i)))\<rparr>"
    by blast
  from ok have seg: "segments (sns ! i) \<noteq> []" by (simp add: snakeOk_def)
  from ok have "1 \<le> getSpeedMultiplier (effects (sns ! i))"
    by (simp add: snakeOk_def getSpeedMultiplier_ge)
  with ok have acc: "0 \<le> newAccumulator (fm ! i)"
    by (simp add: f(7) snakeOk_def)
  have eff: "1 \<le> tpl_multiplier tpl" if "effectTemplate (fm ! i) = Some tpl" for tpl
  proof -
    from that f(6) obtain fd where "foodAt state (nextPosition (hd (segments (sns ! i))) (fst (maybeTurn (sns ! i)))) = Some fd"
      and e: "effect fd = Some tpl"
      by (auto split: option.splits)
    then have "fd \<in> set (foods state)" by (simp add: foodAt_mem)
    with fo have "foodOk fd" by (simp add: list_all_iff)
    with e show ?thesis by (simp add: foodOk_def)
  qed
  show ?thesis
    unfolding n using ok seg acc eff
    by (auto simp: snakeOk_def f(1) split: option.splits)
qed

lemma ids_pointwise:
  assumes "applyMove t m = Some n"
  shows "mset (map snake_id (filter alive [n])) + mset (map snakeId (ticketFor m))
           \<subseteq># {#snake_id (snake m)#}"
proof (cases "ticketFor m = []")
  case True
  with applyMove_id [OF assms] show ?thesis by simp
next
  case False
  then have "alive (snake m) \<and> willMove m \<and> collided m"
    by (auto simp: ticketFor_def Let_def split: if_splits)
  with applyMove_alive [OF assms] have "\<not> alive n" by simp
  then show ?thesis by (auto simp: ticketFor_def Let_def)
qed

lemma ids_moves:
  "list_all2 (\<lambda>m n. applyMove t m = Some n) fm ns \<Longrightarrow>
   mset (map snake_id (filter alive ns)) + mset (map snakeId (concat (map ticketFor fm)))
     \<subseteq># mset (map (\<lambda>m. snake_id (snake m)) fm)"
proof (induction rule: list_all2_induct)
  case Nil
  then show ?case by simp
next
  case (Cons m fm n ns)
  have "mset (map snake_id (filter alive (n # ns))) + mset (map snakeId (concat (map ticketFor (m # fm))))
      = (mset (map snake_id (filter alive [n])) + mset (map snakeId (ticketFor m)))
        + (mset (map snake_id (filter alive ns)) + mset (map snakeId (concat (map ticketFor fm))))"
    by simp
  also have "\<dots> \<subseteq># {#snake_id (snake m)#} + mset (map (\<lambda>m. snake_id (snake m)) fm)"
    using ids_pointwise [OF Cons.hyps(1)] Cons.IH by (rule subset_mset.add_mono)
  finally show ?case by simp
qed

lemma respawnAcc_respawned:
  "sp \<in> set (respawnedSnakes (respawnAcc state rng fm ns)) \<Longrightarrow>
   \<exists>ticket \<in> set (respawnQueue state @ concat (map ticketFor fm)).
      ticksRemaining ticket \<le> 1 \<and> ticket_controller ticket = Ai
      \<and> (\<exists>h d. sp = buildSnake (snakeId ticket) h d Ai (tick state + 1 + SAFE_RESPAWN_TICKS))"
  unfolding respawnAcc_def
  by (drule fold_processTicket_respawned) simp

lemma respawnAcc_ids:
  "accIds (respawnAcc state rng fm ns)
     \<subseteq># mset (map snakeId (respawnQueue state)) + mset (map snakeId (concat (map ticketFor fm)))"
  unfolding respawnAcc_def
  using fold_processTicket_ids [of state "tick state + 1" "createSpawnPoints (config state)"
      "respawnQueue state @ concat (map ticketFor fm)"
      "\<lparr>occupied = occupiedCells (filter alive ns) (uneatenFoods state fm),
        respawnedSnakes = [], updatedQueue = [], acc_rng = rng\<rparr>"]
  by (simp add: accIds_def)

lemma moves_ids:
  assumes "prepareTick state commands = Some (sns, rng)" and "finalMoves state sns = Some fm"
  shows "map (\<lambda>m. snake_id (snake m)) fm = map snake_id (snakes state)"
proof (rule nth_equalityI)
  from prepareTick_snakes [OF assms(1)] obtain cm where
    sns: "sns = map (prepareSnake (tick state) cm) (snakes state)" by blast
  show l: "length (map (\<lambda>m. snake_id (snake m)) fm) = length (map snake_id (snakes state))"
    by (simp add: finalMoves_same(1) [OF assms(2)] sns)
  fix i assume "i < length (map (\<lambda>m. snake_id (snake m)) fm)"
  then have i: "i < length sns" by (simp add: finalMoves_same(1) [OF assms(2)])
  then show "map (\<lambda>m. snake_id (snake m)) fm ! i = map snake_id (snakes state) ! i"
    using finalMoves_snake [OF assms(2) i] finalMoves_same(1) [OF assms(2)]
    by (simp add: sns prepareSnake_fields)
qed

lemma advanceState_stateOk:
  assumes ok: "stateOk s" and adv: "advanceState s commands = Some s'"
  shows "stateOk s'"
proof (cases "status s = Running")
  case False
  with adv ok show ?thesis by (simp add: advanceState_def)
next
  case True
  from advanceState_running [OF True adv] obtain sns rng fm ns where
    pt: "prepareTick s commands = Some (sns, rng)" and
    fm: "finalMoves s sns = Some fm" and
    ns: "mapM (applyMove (tick s)) fm = Some ns" and
    s': "s' = finishTick s rng fm ns" by blast
  from prepareTick_snakes [OF pt] obtain cm where
    sns: "sns = map (prepareSnake (tick s) cm) (snakes s)" by blast
  have snsok: "snakeOk (sns ! i)" if "i < length sns" for i
    using that ok by (simp add: sns stateOk_def list_all_length prepareSnake_ok)
  have lfm: "length fm = length sns" by (rule finalMoves_same(1) [OF fm])
  have lns: "length ns = length fm" by (rule mapM_length [OF ns])
  have fo: "list_all foodOk (foods s)" and fl: "length (foods s) \<le> MAX_FOOD"
    using ok by (simp_all add: stateOk_def)
  have surv: "snakeOk n" if "n \<in> set (filter alive ns)" for n
  proof -
    from that have mem: "n \<in> set ns" and al: "alive n" by simp_all
    from mem obtain i where i: "i < length ns" and n: "n = ns ! i"
      by (auto simp: in_set_conv_nth)
    from i have i': "i < length sns" by (simp add: lns lfm)
    from mapM_nth [OF ns, of i] i have "applyMove (tick s) (fm ! i) = Some n"
      by (simp add: lns n)
    from survivor_ok [OF fm i' snsok [OF i'] this al fo] show ?thesis .
  qed
  have resp: "snakeOk sp" if "sp \<in> set (respawnedSnakes (respawnAcc s rng fm ns))" for sp
    using respawnAcc_respawned [OF that] buildSnake_ok by auto
  have snakes_ok: "list_all snakeOk (snakes s')"
    unfolding s' finishTick_fields list_all_iff using surv resp by auto
  have "mset (map snake_id (snakes s') @ map snakeId (respawnQueue s'))
        = mset (map snake_id (filter alive ns)) + accIds (respawnAcc s rng fm ns)"
    by (simp add: s' finishTick_fields accIds_def)
  also have "\<dots> \<subseteq># mset (map snake_id (filter alive ns))
        + (mset (map snakeId (respawnQueue s)) + mset (map snakeId (concat (map ticketFor fm))))"
    using respawnAcc_ids [of s rng fm ns] by (simp add: subset_mset.add_left_mono)
  also have "\<dots> = (mset (map snake_id (filter alive ns)) + mset (map snakeId (concat (map ticketFor fm))))
        + mset (map snakeId (respawnQueue s))"
    by (simp add: ac_simps)
  also have "\<dots> \<subseteq># mset (map (\<lambda>m. snake_id (snake m)) fm) + mset (map snakeId (respawnQueue s))"
    using ids_moves [OF mapM_list_all2 [OF ns]] by (simp add: subset_mset.add_right_mono)
  also have "\<dots> = mset (map snake_id (snakes s) @ map snakeId (respawnQueue s))"
    by (simp add: moves_ids [OF pt fm])
  finally have sub: "mset (map snake_id (snakes s') @ map snakeId (respawnQueue s'))
        \<subseteq># mset (map snake_id (snakes s) @ map snakeId (respawnQueue s))" .
  from ok have "distinct (map snake_id (snakes s) @ map snakeId (respawnQueue s))"
    by (simp add: stateOk_def)
  with sub have "distinct (map snake_id (snakes s') @ map snakeId (respawnQueue s'))"
    by (rule distinct_submset)
  with snakes_ok finishTick_foods [OF fo fl, of rng fm ns] show ?thesis
    by (simp add: stateOk_def s')
qed

lemma string_of_nat_small: "n < 10 \<Longrightarrow> string_of_nat n = [digit_char n]"
  by (simp add: string_of_nat.simps [of n])

lemma ai_names_distinct:
  "distinct (map (\<lambda>i. ''ai-'' @ string_of_nat (i + 1)) [0 ..< 4])"
proof -
  have u: "[0 ..< 4] = [0, 1, 2, 3 :: nat]"
    by (simp add: upt_rec)
  show ?thesis
    unfolding u by (simp add: string_of_nat_small digit_char_def)
qed

lemma initial_ids_distinct:
  assumes "k \<le> 4"
  shows "distinct (''player'' # map (\<lambda>i. ''ai-'' @ string_of_nat (i + 1)) [0 ..< k])"
proof -
  have "[0 ..< k] = take k [0 ..< 4]"
    using assms by (simp add: take_upt)
  then have "map (\<lambda>i. ''ai-'' @ string_of_nat (i + 1)) [0 ..< k]
             = take k (map (\<lambda>i. ''ai-'' @ string_of_nat (i + 1)) [0 ..< 4])"
    by (simp add: take_map)
  with ai_names_distinct have "distinct (map (\<lambda>i. ''ai-'' @ string_of_nat (i + 1)) [0 ..< k])"
    by (simp add: distinct_take)
  then show ?thesis by auto
qed

lemma initialAi_fields:
  "snake_id (initialAi sp i) = ''ai-'' @ string_of_nat (i + 1)" "snakeOk (initialAi sp i)"
  by (simp_all add: initialAi_def Let_def buildSnake_fields buildSnake_ok)

lemma replenishFood_length_empty:
  "foods state = [] \<Longrightarrow> length (foods (replenishFood state rng)) \<le> MAX_FOOD"
  using replenishFood_length [of state rng] by simp

lemma initialState_Some:
  "initialState cfg = Some s \<longleftrightarrow>
     (\<exists>rounds. aiRounds (toNumber (aiCount cfg)) = Some rounds
        \<and> s = replenishFood
                \<lparr>tick = 0, config = cfg,
                 snakes = buildSnake ''player'' (sp_head (createSpawnPoints cfg ! 0))
                            (sp_direction (createSpawnPoints cfg ! 0)) Player 0
                          # map (initialAi (createSpawnPoints cfg)) [0 ..< rounds],
                 foods = [], rngState = uint (toUint32 (seed cfg)), status = Running,
                 respawnQueue = []\<rparr>
                (createRng (seed cfg)))"
  by (auto simp: initialState_def Let_def split: option.splits)

lemma clampConfig_aiRounds:
  "\<exists>k \<le> 4. aiRounds (toNumber (raw_aiCount (clampConfig c))) = Some k"
proof (cases "toNumber (raw_aiCount c)")
  case (Fin q)
  have "nat \<lceil>max 0 (min 4 q)\<rceil> \<le> 4"
  proof -
    have "max 0 (min 4 q) \<le> 4" by simp
    then have "\<lceil>max 0 (min 4 q)\<rceil> \<le> 4"
      by (simp only: ceiling_le_iff of_int_numeral)
    then show ?thesis by linarith
  qed
  moreover have "mathMax (Fin 0) (mathMin (Fin 4) (Fin q)) = Fin (max 0 (min 4 q))"
    by (auto simp: mathMax_def mathMin_def max_def min_def)
  ultimately show ?thesis by (simp add: clampConfig_def Fin)
qed (simp_all add: clampConfig_def mathMax_def mathMin_def)

lemma gridConfig_fields:
  "gridConfig c = Some cfg \<Longrightarrow>
   intOf (raw_cols c) = Some (cols cfg) \<and> intOf (raw_rows c) = Some (rows cfg)
   \<and> tickRate cfg = raw_tickRate c \<and> seed cfg = raw_seed c \<and> aiCount cfg = raw_aiCount c"
  by (auto simp: gridConfig_def split: option.splits)

lemma initialState_stateOk:
  assumes "initialState cfg = Some s" and "aiRounds (toNumber (aiCount cfg)) = Some k" and "k \<le> 4"
  shows "stateOk s"
proof -
  let ?st = "\<lparr>tick = 0, config = cfg,
                 snakes = buildSnake ''player'' (sp_head (createSpawnPoints cfg ! 0))
                            (sp_direction (createSpawnPoints cfg ! 0)) Player 0
                          # map (initialAi (createSpawnPoints cfg)) [0 ..< k],
                 foods = [], rngState = uint (toUint32 (seed cfg)), status = Running,
                 respawnQueue = []\<rparr>"
  from assms(1,2) have s: "s = replenishFood ?st (createRng (seed cfg))"
    by (simp add: initialState_Some)
  have "list_all snakeOk (map (initialAi sp) vs)" for sp vs
    by (induction vs) (simp_all add: initialAi_fields(2))
  then have sn: "list_all snakeOk (snakes s)"
    unfolding s replenishFood_snakes by (simp add: buildSnake_ok)
  have "map snake_id (snakes s)
        = ''player'' # map (\<lambda>i. ''ai-'' @ string_of_nat (i + 1)) [0 ..< k]"
    unfolding s replenishFood_snakes by (simp add: buildSnake_fields initialAi_fields)
  with initial_ids_distinct [OF assms(3)]
  have ids: "distinct (map snake_id (snakes s) @ map snakeId (respawnQueue s))"
    unfolding s replenishFood_fields by simp
  have fo: "list_all foodOk (foods s)"
    unfolding s by (rule replenishFood_foodOk) simp
  have "length (foods s) \<le> MAX_FOOD"
    unfolding s by (rule replenishFood_length_empty) simp
  with sn ids fo show ?thesis by (simp add: stateOk_def)
qed

lemma createInitialState_stateOk:
  assumes "createInitialState p = Some s"
  shows "stateOk s"
proof -
  from assms obtain cfg where
    g: "gridConfig (clampConfig (mergeConfig defaultConfig p)) = Some cfg"
    and i: "initialState cfg = Some s"
    by (auto simp: createInitialState_Some)
  from clampConfig_aiRounds [of "mergeConfig defaultConfig p"] gridConfig_fields [OF g]
  obtain k where "k \<le> 4" "aiRounds (toNumber (aiCount cfg)) = Some k" by auto
  with i show ?thesis by (intro initialState_stateOk [of cfg s k])
qed

lemma createInitialState_defined:
  assumes "gridConfig (clampConfig (mergeConfig defaultConfig p)) = Some cfg"
  shows "\<exists>s. createInitialState p = Some s"
proof -
  from clampConfig_aiRounds [of "mergeConfig defaultConfig p"] gridConfig_fields [OF assms]
  obtain k where "aiRounds (toNumber (aiCount cfg)) = Some k" by auto
  then have "\<exists>s. initialState cfg = Some s"
    by (simp add: initialState_def Let_def)
  with assms show ?thesis by (simp add: createInitialState_def Let_def)
qed

lemma reachable_stateOk: "reachable s \<Longrightarrow> stateOk s"
  by (induction rule: reachable.induct) (auto intro: createInitialState_stateOk advanceState_stateOk)

section \<open>Evaluating the engine on examples\<close>

lemmas example_defs = exampleSnake_def standardFood_def exampleConfig_def exampleFoods_def

lemmas move_defs = checkedMoves_def proposeMove_def checkMove_def maybeTurn_def
  getSpeedMultiplier_def buildSnakeLookup_def buildSafeLookup_def buildOccupancy_def
  buildMoveBySnake_def lookupSafe_def isSnakeSafe_def Let_def

lemmas tick_defs = advanceState_def prepareTick_def buildCommandMap_def aiBackfillStep_def
  prepareSnake_def applyInput_def pruneEffects_def finalMoves_def resolveHeadCollisions_def
  collectHeadCollisions_def collectStep_def pushHead_def resolveGroup_def markAll_def
  markHead_def moveLength_def applyMove_def ticketFor_def finishTick_def processTicket_def
  trySpawn_def createSpawnPoints_def occupiedCells_def replenishFood_def MAX_FOOD_def
  RESPAWN_DELAY_TICKS_def SAFE_RESPAWN_TICKS_def fits_def buildSnake_def createRng_def
  intNum_def rng_next_def rng_state_def

lemma floor_rat_numeral: "\<lfloor>numeral a / numeral b :: rat\<rfloor> = numeral a div numeral b"
  using floor_divide_of_int_eq [of "numeral a" "numeral b", where ?'a = rat] by simp

lemma respawnExample_prepare: "prepareTick respawnExample [] = Some (snakes respawnExample, 7)"
  by (simp add: respawnExample_def example_defs move_defs tick_defs
      cong: let_weak_cong prod.case_cong_weak)

lemma respawnExample_step: "advanceState respawnExample [] = Some respawnNext"
  apply (simp only: advanceState_def respawnExample_prepare option.case prod.case)
  apply (simp add: respawnExample_def respawnNext_def example_defs move_defs tick_defs
        floor_rat_numeral
      cong: let_weak_cong prod.case_cong_weak)
  done

lemma respawnExample_ok: "stateOk respawnExample"
  by (simp add: respawnExample_def example_defs stateOk_def snakeOk_def foodOk_def MAX_FOOD_def)

section \<open>Shared facts about whole ticks\<close>

lemma negativeSeed_defined: "\<exists>s. createInitialState negativeSeed = Some s"
proof -
  have "gridConfig (clampConfig (mergeConfig defaultConfig negativeSeed)) =
      Some \<lparr>cols = 32, rows = 24, tickRate = Number (Fin 10), seed = Number (Fin (- 1)),
            aiCount = Number (Fin 2)\<rparr>"
    by (simp add: clampConfig_def mergeConfig_def defaultConfig_def negativeSeed_def
          mathMax_def mathMin_def gridConfig_def)
  then show ?thesis by (rule createInitialState_defined)
qed

lemma advanceState_stopped: "status s \<noteq> Running \<Longrightarrow> advanceState s commands = Some s"
  by (simp add: advanceState_def)

lemma stateOk_segments: "stateOk s \<Longrightarrow> sn \<in> set (snakes s) \<Longrightarrow> segments sn \<noteq> []"
  by (auto simp: stateOk_def snakeOk_def list_all_iff)

lemma stateOk_alive: "stateOk s \<Longrightarrow> list_all alive (snakes s)"
  by (auto simp: stateOk_def snakeOk_def list_all_iff)

lemma respawned_alive:
  "sp \<in> set (respawnedSnakes (respawnAcc state rng fm ns)) \<Longrightarrow> alive sp"
  by (auto dest!: respawnAcc_respawned simp: buildSnake_fields)

lemma finishTick_alive: "list_all alive (snakes (finishTick state rng fm ns))"
  by (auto simp: finishTick_fields list_all_iff dest: respawned_alive)

lemma advanceState_foods_length:
  assumes "length (foods s) \<le> MAX_FOOD" and "advanceState s commands = Some s'"
  shows "length (foods s') \<le> MAX_FOOD"
proof (cases "status s = Running")
  case True
  from advanceState_running [OF True assms(2)] obtain sns rng fm ns
    where s': "s' = finishTick s rng fm ns" by blast
  let ?st = "s\<lparr>snakes := filter alive ns @ respawnedSnakes (respawnAcc s rng fm ns),
                foods := uneatenFoods s fm, tick := tick s + 1,
                rngState := rng_state (acc_rng (respawnAcc s rng fm ns)),
                respawnQueue := updatedQueue (respawnAcc s rng fm ns)\<rparr>"
  have "length (foods ?st) \<le> MAX_FOOD"
    using uneatenFoods_length [of s fm] assms(1) by simp
  then have "length (foods (replenishFood ?st (acc_rng (respawnAcc s rng fm ns)))) \<le> MAX_FOOD"
    using replenishFood_length [of ?st "acc_rng (respawnAcc s rng fm ns)"] by linarith
  then show ?thesis unfolding s' by (simp only: finishTick_fields)
next
  case False
  with assms show ?thesis by (simp add: advanceState_def)
qed

section \<open>Configuration clamping\<close>





text \<open>
  What \<open>clampConfig\<close> does with a key that holds \<open>undefined\<close> (or \<open>NaN\<close>):
  \<open>Math.max(8, undefined)\<close> is \<open>NaN\<close>, and \<open>NaN\<close> is stored, which is not at least 8.
\<close>

lemma clampConfig_undefined:
  "raw_cols (clampConfig (mergeConfig defaultConfig
      \<lparr>p_cols = Some Undefined, p_rows = None, p_tickRate = None, p_seed = None,
       p_aiCount = None\<rparr>)) = Number NaN
   \<and> \<not> num_le (Fin 8) NaN"
  by (simp add: clampConfig_def mergeConfig_def defaultConfig_def mathMax_def)






section \<open>No dead snake in a returned state\<close>

text \<open>
  C10. Every snake of a state returned by \<open>createInitialState\<close> is alive. Every snake
  of a state that \<open>advanceState\<close> returns for a running state is alive: the snakes of
  that state are the outcomes of the moves that are still alive, followed by the
  snakes respawned in this tick, and the outcome of a move that was made and collided
  is not alive, so it is not among them. A state that is not running is returned as
  it is. Hence every snake of every state of a run is alive.
\<close>

theorem returned_snakes_alive:
  "(createInitialState p = Some s0 \<longrightarrow> list_all alive (snakes s0))
   \<and> (status s = Running \<and> advanceState s commands = Some s' \<longrightarrow>
        list_all alive (snakes s')
        \<and> (\<exists>sns rng fm ns.
              prepareTick s commands = Some (sns, rng) \<and> finalMoves s sns = Some fm
              \<and> mapM (applyMove (tick s)) fm = Some ns
              \<and> snakes s' = filter alive ns @ respawnedSnakes (respawnAcc s rng fm ns)
              \<and> list_all alive (respawnedSnakes (respawnAcc s rng fm ns))
              \<and> (\<forall>i < length fm. willMove (fm ! i) \<and> collided (fm ! i) \<longrightarrow> \<not> alive (ns ! i))))
   \<and> (status s \<noteq> Running \<longrightarrow> advanceState s commands = Some s)
   \<and> (reachable r \<longrightarrow> list_all alive (snakes r))"
proof (intro conjI impI)
  assume "createInitialState p = Some s0"
  then show "list_all alive (snakes s0)"
    by (intro stateOk_alive createInitialState_stateOk)
next
  assume a: "status s = Running \<and> advanceState s commands = Some s'"
  then obtain sns rng fm ns where p: "prepareTick s commands = Some (sns, rng)"
    and f: "finalMoves s sns = Some fm" and m: "mapM (applyMove (tick s)) fm = Some ns"
    and s': "s' = finishTick s rng fm ns"
    using advanceState_running [of s commands s'] by blast
  show "list_all alive (snakes s')" unfolding s' by (rule finishTick_alive)
  have dead: "\<not> alive (ns ! i)" if "i < length fm" "willMove (fm ! i) \<and> collided (fm ! i)" for i
    using applyMove_alive [OF mapM_nth [OF m that(1)]] that(2) by simp
  have "list_all alive (respawnedSnakes (respawnAcc s rng fm ns))"
    by (auto simp: list_all_iff dest: respawned_alive)
  with p f m dead
  show "\<exists>sns rng fm ns.
              prepareTick s commands = Some (sns, rng) \<and> finalMoves s sns = Some fm
              \<and> mapM (applyMove (tick s)) fm = Some ns
              \<and> snakes s' = filter alive ns @ respawnedSnakes (respawnAcc s rng fm ns)
              \<and> list_all alive (respawnedSnakes (respawnAcc s rng fm ns))
              \<and> (\<forall>i < length fm. willMove (fm ! i) \<and> collided (fm ! i) \<longrightarrow> \<not> alive (ns ! i))"
    unfolding s' by (auto simp: finishTick_fields)
next
  assume "status s \<noteq> Running"
  then show "advanceState s commands = Some s" by (rule advanceState_stopped)
next
  assume "reachable r"
  then show "list_all alive (snakes r)"
    by (intro stateOk_alive reachable_stateOk)
qed

theorem returned_snakes_alive_witness:
  "(\<exists>s0. createInitialState negativeSeed = Some s0 \<and> reachable s0 \<and> list_all alive (snakes s0))
   \<and> status respawnExample = Running
   \<and> advanceState respawnExample [] = Some respawnNext
   \<and> list_all alive (snakes respawnNext)
   \<and> advanceState (respawnExample\<lparr>status := Gameover\<rparr>) [] = Some (respawnExample\<lparr>status := Gameover\<rparr>)"
proof -
  from negativeSeed_defined obtain s0 where s0: "createInitialState negativeSeed = Some s0"
    by blast
  have r: "reachable s0" using s0 by (rule reach_init)
  have st: "status respawnExample = Running" by (simp add: respawnExample_def)
  have g: "status (respawnExample\<lparr>status := Gameover\<rparr>) \<noteq> Running" by simp
  from returned_snakes_alive [of negativeSeed s0 respawnExample "[]" respawnNext s0] s0 r st
    respawnExample_step
  have 1: "list_all alive (snakes s0)" and 2: "list_all alive (snakes respawnNext)"
    by blast+
  from returned_snakes_alive [of negativeSeed s0 "respawnExample\<lparr>status := Gameover\<rparr>" "[]"
      respawnNext s0] g
  have 3: "advanceState (respawnExample\<lparr>status := Gameover\<rparr>) [] = Some (respawnExample\<lparr>status := Gameover\<rparr>)"
    by blast
  from s0 r 1 2 3 st respawnExample_step show ?thesis by blast
qed


end
